theory Spec2Isabelle
  imports Complex_Main
begin

section \<open>JavaScript numbers\<close>

text \<open>
  The calculator of \<^verbatim>\<open>src/src/App.tsx\<close> computes on JavaScript numbers (IEEE 754
  binary64).  A number is modelled as a finite value, one of the two infinities, or NaN.
  A finite value is the rational it denotes.

  Every arithmetic result is rounded to the nearest double, ties to the even significand.
  \<open>binade x\<close> is the exponent \<open>e\<close> with \<open>2^e \<le> x < 2^(e+1)\<close>, and \<open>-1022\<close> in the
  subnormal range; \<open>quantum x\<close> is the spacing \<open>2^(e-52)\<close> of the doubles around \<open>x\<close>
  (\<open>2^-1074\<close> in the subnormal range, so that small results underflow gradually and at
  last to zero); \<open>js_fin x\<close> is the double nearest to the exact result \<open>x\<close>, or an
  infinity when the magnitude of \<open>x\<close> reaches \<open>2^1024 - 2^970\<close> (the largest double
  plus half a unit in its last place).

  The sign of zero is not modelled: \<open>-0\<close> and \<open>+0\<close> are both \<open>Fin 0\<close>.  The program
  compares numbers with \<^verbatim>\<open><\<close>, \<^verbatim>\<open><=\<close>, \<^verbatim>\<open>>\<close> and tests them for truth, which do not
  tell the two zeros apart, and it divides by the literals \<open>100\<close> and \<open>20\<close> only.
\<close>

datatype jsnum = Fin rat | PInf | NInf | NaN

definition DBL_OVF :: rat where
  "DBL_OVF = 2 ^ 1024 - 2 ^ 970"

text \<open>The exponent of a number \<open>x \<ge> 1\<close>, by halving.\<close>

function binade_up :: "rat \<Rightarrow> int" where
  "binade_up x = (if x < 2 then 0 else binade_up (x / 2) + 1)"
  by pat_completeness auto
termination
proof (relation "measure (\<lambda>x. nat \<lceil>x\<rceil>)")
  show "wf (measure (\<lambda>x. nat \<lceil>x\<rceil>))" by simp
next
  fix x :: rat
  assume "\<not> x < 2"
  then have x: "1 < x" by simp
  then have p: "0 < \<lceil>x\<rceil>" by (simp add: less_ceiling_iff)
  have "2 \<le> \<lceil>x\<rceil>" using x by (simp add: le_ceiling_iff)
  then have c: "(2::rat) \<le> of_int \<lceil>x\<rceil>" by (metis of_int_le_iff of_int_numeral)
  have "x / 2 \<le> of_int \<lceil>x\<rceil> / 2" by (simp add: divide_right_mono)
  also have "\<dots> \<le> of_int (\<lceil>x\<rceil> - 1)" using c by simp
  finally have "\<lceil>x / 2\<rceil> \<le> \<lceil>x\<rceil> - 1" by (rule ceiling_le)
  with p show "(x / 2, x) \<in> measure (\<lambda>x. nat \<lceil>x\<rceil>)" by simp
qed

text \<open>The exponent of a number \<open>0 < x < 1\<close>, by doubling.\<close>

function binade_down :: "rat \<Rightarrow> int" where
  "binade_down x = (if x \<le> 0 \<or> 1 \<le> x then 0 else binade_down (x * 2) - 1)"
  by pat_completeness auto
termination
proof (relation "measure (\<lambda>x. nat \<lceil>1 / x\<rceil>)")
  show "wf (measure (\<lambda>x. nat \<lceil>1 / x\<rceil>))" by simp
next
  fix x :: rat
  assume "\<not> (x \<le> 0 \<or> 1 \<le> x)"
  then have x: "0 < x" "x < 1" by simp_all
  define y where "y = 1 / x"
  have y: "1 < y" using x by (simp add: y_def)
  have e: "1 / (x * 2) = y / 2" by (simp add: y_def)
  have "of_int 0 < y" using y by simp
  then have p: "0 < \<lceil>y\<rceil>" by (simp only: less_ceiling_iff)
  have "2 \<le> \<lceil>y\<rceil>" using y by (simp add: le_ceiling_iff)
  then have c: "(2::rat) \<le> of_int \<lceil>y\<rceil>" by (metis of_int_le_iff of_int_numeral)
  have "y / 2 \<le> of_int \<lceil>y\<rceil> / 2" by (simp add: divide_right_mono)
  also have "\<dots> \<le> of_int (\<lceil>y\<rceil> - 1)" using c by simp
  finally have "\<lceil>y / 2\<rceil> \<le> \<lceil>y\<rceil> - 1" by (rule ceiling_le)
  with p show "(x * 2, x) \<in> measure (\<lambda>x. nat \<lceil>1 / x\<rceil>)"
    unfolding in_measure e y_def[symmetric] by linarith
qed

declare binade_up.simps [simp del] binade_down.simps [simp del]

definition binade :: "rat \<Rightarrow> int" where
  "binade x =
     (if x < 1 / 2 ^ 1022 then - 1022 else if x < 1 then binade_down x else binade_up x)"

definition quantum :: "rat \<Rightarrow> rat" where
  "quantum x = 2 powi (binade \<bar>x\<bar> - 52)"

text \<open>The nearest integer, a half going to the even neighbour.\<close>

definition round_half_even :: "rat \<Rightarrow> int" where
  "round_half_even x =
     (let f = \<lfloor>x\<rfloor>
      in if x - of_int f < 1 / 2 then f
         else if 1 / 2 < x - of_int f then f + 1
         else if even f then f else f + 1)"

text \<open>The double that the exact result \<open>x\<close> of an operation is rounded to.\<close>

definition js_fin :: "rat \<Rightarrow> jsnum" where
  "js_fin x =
     (if DBL_OVF \<le> x then PInf
      else if x \<le> - DBL_OVF then NInf
      else Fin (of_int (round_half_even (x / quantum x)) * quantum x))"

fun js_neg :: "jsnum \<Rightarrow> jsnum" where
  "js_neg (Fin a) = Fin (- a)"
| "js_neg PInf = NInf"
| "js_neg NInf = PInf"
| "js_neg NaN = NaN"

text \<open>The sign of a number: \<open>1\<close>, \<open>-1\<close> or \<open>0\<close>; NaN has none.\<close>

fun js_sign :: "jsnum \<Rightarrow> int option" where
  "js_sign (Fin a) = Some (if a < 0 then - 1 else if a = 0 then 0 else 1)"
| "js_sign PInf = Some 1"
| "js_sign NInf = Some (- 1)"
| "js_sign NaN = None"

definition inf_of_sign :: "int \<Rightarrow> jsnum" where
  "inf_of_sign k = (if k = 0 then NaN else if 0 < k then PInf else NInf)"

text \<open>\<^verbatim>\<open>a + b\<close>\<close>

fun js_add :: "jsnum \<Rightarrow> jsnum \<Rightarrow> jsnum" where
  "js_add (Fin a) (Fin b) = js_fin (a + b)"
| "js_add NaN _ = NaN"
| "js_add _ NaN = NaN"
| "js_add PInf NInf = NaN"
| "js_add NInf PInf = NaN"
| "js_add PInf _ = PInf"
| "js_add _ PInf = PInf"
| "js_add NInf _ = NInf"
| "js_add _ NInf = NInf"

text \<open>\<^verbatim>\<open>a - b\<close>\<close>

definition js_sub :: "jsnum \<Rightarrow> jsnum \<Rightarrow> jsnum" where
  "js_sub a b = js_add a (js_neg b)"

text \<open>\<^verbatim>\<open>a * b\<close>: an infinity times zero is NaN.\<close>

fun js_mul :: "jsnum \<Rightarrow> jsnum \<Rightarrow> jsnum" where
  "js_mul (Fin a) (Fin b) = js_fin (a * b)"
| "js_mul a b =
     (case (js_sign a, js_sign b) of
        (Some i, Some j) \<Rightarrow> inf_of_sign (i * j)
      | _ \<Rightarrow> NaN)"

text \<open>\<^verbatim>\<open>a / b\<close>; a zero divisor is taken as \<open>+0\<close>.\<close>

fun js_div :: "jsnum \<Rightarrow> jsnum \<Rightarrow> jsnum" where
  "js_div NaN _ = NaN"
| "js_div _ NaN = NaN"
| "js_div (Fin a) (Fin b) =
     (if b = 0 then inf_of_sign (if a < 0 then - 1 else if a = 0 then 0 else 1)
      else js_fin (a / b))"
| "js_div (Fin a) _ = Fin 0"
| "js_div PInf (Fin b) = (if b < 0 then NInf else PInf)"
| "js_div NInf (Fin b) = (if b < 0 then PInf else NInf)"
| "js_div _ _ = NaN"

text \<open>\<^verbatim>\<open>a < b\<close>, \<^verbatim>\<open>a <= b\<close>, \<^verbatim>\<open>a > b\<close>, \<^verbatim>\<open>a >= b\<close>: false as soon as one side is NaN.\<close>

fun js_lt :: "jsnum \<Rightarrow> jsnum \<Rightarrow> bool" where
  "js_lt NaN _ = False"
| "js_lt _ NaN = False"
| "js_lt (Fin a) (Fin b) = (a < b)"
| "js_lt _ NInf = False"
| "js_lt PInf _ = False"
| "js_lt _ PInf = True"
| "js_lt NInf _ = True"

fun js_le :: "jsnum \<Rightarrow> jsnum \<Rightarrow> bool" where
  "js_le NaN _ = False"
| "js_le _ NaN = False"
| "js_le (Fin a) (Fin b) = (a \<le> b)"
| "js_le NInf _ = True"
| "js_le _ PInf = True"
| "js_le _ NInf = False"
| "js_le PInf _ = False"

definition js_gt :: "jsnum \<Rightarrow> jsnum \<Rightarrow> bool" where
  "js_gt a b = js_lt b a"

definition js_ge :: "jsnum \<Rightarrow> jsnum \<Rightarrow> bool" where
  "js_ge a b = js_le b a"

text \<open>
  \<^verbatim>\<open>Math.ceil\<close>, \<^verbatim>\<open>Math.round\<close> (halves go up) and \<^verbatim>\<open>Math.max\<close>.  The ceiling and
  the rounding of a double are whole numbers that are doubles again, so no further rounding
  takes place.
\<close>

fun js_ceil :: "jsnum \<Rightarrow> jsnum" where
  "js_ceil (Fin a) = Fin (of_int \<lceil>a\<rceil>)"
| "js_ceil x = x"

fun js_round :: "jsnum \<Rightarrow> jsnum" where
  "js_round (Fin a) = Fin (of_int \<lfloor>a + 1 / 2\<rfloor>)"
| "js_round x = x"

definition js_max :: "jsnum \<Rightarrow> jsnum \<Rightarrow> jsnum" where
  "js_max a b = (if a = NaN \<or> b = NaN then NaN else if js_lt a b then b else a)"

text \<open>\<^verbatim>\<open>Number.isNaN\<close>, and the truth value of a number in a condition.\<close>

definition js_isNaN :: "jsnum \<Rightarrow> bool" where
  "js_isNaN a = (a = NaN)"

definition js_truthy :: "jsnum \<Rightarrow> bool" where
  "js_truthy a = (a \<noteq> Fin 0 \<and> a \<noteq> NaN)"

section \<open>The component state\<close>

text \<open>
  \<^verbatim>\<open>type VehicleType = 'Petrol/Diesel' | 'Electric'\<close> and the three tables of defaults.
  A decimal literal denotes the double nearest to it: \<^verbatim>\<open>25.7\<close> is \<open>js_fin (257 / 10)\<close>,
  while \<^verbatim>\<open>6.5\<close>, \<^verbatim>\<open>18\<close>, \<^verbatim>\<open>185\<close> and \<^verbatim>\<open>300\<close> are doubles themselves.
  (The unnamed older version of the file has four vehicle types and only the efficiency
  table; its validator, handler and first chart are the same code.)
\<close>

datatype VehicleType = PetrolDiesel | Electric

fun defaultEfficiency :: "VehicleType \<Rightarrow> jsnum" where
  "defaultEfficiency PetrolDiesel = Fin (13 / 2)"
| "defaultEfficiency Electric = Fin 18"

fun defaultCurrentPrice :: "VehicleType \<Rightarrow> jsnum" where
  "defaultCurrentPrice PetrolDiesel = Fin 185"
| "defaultCurrentPrice Electric = js_fin (257 / 10)"

fun defaultPastPrice :: "VehicleType \<Rightarrow> jsnum" where
  "defaultPastPrice PetrolDiesel = Fin 300"
| "defaultPastPrice Electric = js_fin (257 / 10)"

text \<open>An input of type \<^verbatim>\<open>number | ''\<close>: the empty string stands for an empty box.\<close>

datatype field = EmptyStr | Num jsnum

text \<open>\<^verbatim>\<open>Number(x)\<close>: the empty string converts to \<open>0\<close>.\<close>

fun Number :: "field \<Rightarrow> jsnum" where
  "Number EmptyStr = Fin 0"
| "Number (Num n) = n"

text \<open>\<^verbatim>\<open>!x\<close> is false for an input exactly when it is a number other than 0 and NaN.\<close>

fun truthy :: "field \<Rightarrow> bool" where
  "truthy EmptyStr = False"
| "truthy (Num n) = js_truthy n"

text \<open>\<^verbatim>\<open>typeof x === 'number' ? x : 0\<close>\<close>

fun numberOr0 :: "field \<Rightarrow> jsnum" where
  "numberOr0 EmptyStr = Fin 0"
| "numberOr0 (Num n) = n"

record breakdown =
  consumed :: jsnum
  previousEstimatedCost :: jsnum
  newFuelCost :: jsnum
  newTaxes :: jsnum
  newTotalCost :: jsnum

text \<open>The \<^verbatim>\<open>useState\<close> cells of the component \<^verbatim>\<open>App\<close>.\<close>

record app_state =
  vehicleType :: VehicleType
  distance :: field
  efficiency :: field
  currentFuelPrice :: field
  pastFuelPrice :: field
  errors :: "string list"
  isGraphExpanded :: bool
  isVehicleComparisonExpanded :: bool
  isEfficiencyComparisonExpanded :: bool
  computedBreakdown :: "breakdown option"

definition initial_state :: app_state where
  "initial_state =
     \<lparr>vehicleType = PetrolDiesel,
      distance = Num (Fin 15000),
      efficiency = Num (Fin (13 / 2)),
      currentFuelPrice = Num (Fin 185),
      pastFuelPrice = Num (Fin 300),
      errors = [],
      isGraphExpanded = False,
      isVehicleComparisonExpanded = False,
      isEfficiencyComparisonExpanded = False,
      computedBreakdown = None\<rparr>"

section \<open>Validation and calculation\<close>

text \<open>\<^verbatim>\<open>x === '' || Number.isNaN(Number(x))\<close>\<close>

definition isMissing :: "field \<Rightarrow> bool" where
  "isMissing x = (x = EmptyStr \<or> js_isNaN (Number x))"

text \<open>
  \<^verbatim>\<open>validateInputs\<close>: four \<^verbatim>\<open>if\<close>/\<^verbatim>\<open>else if\<close> chains push onto \<^verbatim>\<open>errs\<close>, then
  \<^verbatim>\<open>setErrors(errs)\<close> stores the list and the function returns \<^verbatim>\<open>errs.length === 0\<close>.
  The model returns that boolean together with the state after \<^verbatim>\<open>setErrors\<close>.
\<close>

definition validateInputs :: "app_state \<Rightarrow> bool \<times> app_state" where
  "validateInputs s =
     (let errs0 = [];
          priceLabel = (if vehicleType s = Electric then ''electricity price'' else ''fuel price'');
          errs1 =
            (if isMissing (distance s) then errs0 @ [''Annual distance is required'']
             else if js_lt (Number (distance s)) (Fin 0) then errs0 @ [''Distance cannot be negative'']
             else if js_gt (Number (distance s)) (Fin 1000000)
               then errs0 @ [''Distance seems unreasonably large'']
             else errs0);
          errs2 =
            (if isMissing (efficiency s) then errs1 @ [''Efficiency is required'']
             else if js_le (Number (efficiency s)) (Fin 0)
               then errs1 @ [''Efficiency must be greater than 0'']
             else if js_gt (Number (efficiency s)) (Fin 1000)
               then errs1 @ [''Efficiency seems unreasonably large'']
             else errs1);
          errs3 =
            (if isMissing (currentFuelPrice s) then errs2 @ [''Current '' @ priceLabel @ '' is required'']
             else if js_lt (Number (currentFuelPrice s)) (Fin 0)
               then errs2 @ [''Current '' @ priceLabel @ '' cannot be negative'']
             else if js_gt (Number (currentFuelPrice s)) (Fin 10000)
               then errs2 @ [''Current '' @ priceLabel @ '' seems unreasonably large'']
             else errs2);
          errs4 =
            (if isMissing (pastFuelPrice s) then errs3 @ [''Past '' @ priceLabel @ '' is required'']
             else if js_lt (Number (pastFuelPrice s)) (Fin 0)
               then errs3 @ [''Past '' @ priceLabel @ '' cannot be negative'']
             else if js_gt (Number (pastFuelPrice s)) (Fin 10000)
               then errs3 @ [''Past '' @ priceLabel @ '' seems unreasonably large'']
             else errs3)
      in (length errs4 = 0, s\<lparr>errors := errs4\<rparr>))"

text \<open>The literal \<^verbatim>\<open>6.95\<close>: the double nearest to \<open>139 / 20\<close>.\<close>

definition roadTaxPerKm :: jsnum where
  "roadTaxPerKm = js_fin (139 / 20)"

text \<open>
  \<^verbatim>\<open>handleCalculate\<close>: returns at once when validation fails; otherwise computes the
  breakdown from the inputs and stores it.
\<close>

definition handleCalculate :: "app_state \<Rightarrow> app_state" where
  "handleCalculate s =
     (case validateInputs s of
        (ok, s1) \<Rightarrow>
          if \<not> ok then s1
          else
            let d = Number (distance s);
                eff = Number (efficiency s);
                costPerUnit = Number (currentFuelPrice s);
                pastCostPerUnit = Number (pastFuelPrice s);
                consumed = js_div (js_mul d eff) (Fin 100);
                previousEstimatedCost = js_mul consumed pastCostPerUnit;
                newFuelCost = js_mul consumed costPerUnit;
                newTaxes = js_mul d roadTaxPerKm;
                newTotalCost = js_add newFuelCost newTaxes
            in s1\<lparr>computedBreakdown :=
                   Some \<lparr>consumed = consumed,
                         previousEstimatedCost = previousEstimatedCost,
                         newFuelCost = newFuelCost,
                         newTaxes = newTaxes,
                         newTotalCost = newTotalCost\<rparr>\<rparr>)"

text \<open>\<^verbatim>\<open>savings\<close>: \<^verbatim>\<open>null\<close> without a breakdown.\<close>

definition savings :: "app_state \<Rightarrow> jsnum option" where
  "savings s =
     (case computedBreakdown s of
        None \<Rightarrow> None
      | Some b \<Rightarrow> Some (js_sub (previousEstimatedCost b) (newTotalCost b)))"

text \<open>The colour class of the savings line: green for \<^verbatim>\<open>savings >= 0\<close>, red otherwise.\<close>

definition savingsClass :: "app_state \<Rightarrow> string" where
  "savingsClass s =
     (case savings s of
        None \<Rightarrow> ''''
      | Some v \<Rightarrow> if js_ge v (Fin 0) then ''text-green-600'' else ''text-red-600'')"

section \<open>Chart data\<close>

text \<open>
  A chart row is an object keyed by \<^verbatim>\<open>distance\<close> and by the translated names of the
  series.  The model names the series by record fields; the translation table is not part
  of the model, and the names are taken to be distinct.
\<close>

record graph_point =
  gp_distance :: jsnum
  gp_oldSystem :: jsnum
  gp_newSystem :: jsnum

record vehicle_point =
  vp_distance :: jsnum
  vp_currentNew :: jsnum
  vp_currentOld :: jsnum
  vp_otherNew :: jsnum
  vp_otherOld :: jsnum

record efficiency_point =
  ep_distance :: jsnum
  ep_oldSystem :: jsnum
  ep_newSystem :: jsnum
  ep_lessEfficient :: jsnum
  ep_moreEfficient :: jsnum

text \<open>
  The loop \<^verbatim>\<open>for (let d = 0; d <= maxDistance; d += step) { ...; data.push(row) }\<close>,
  written three times in the source with three bodies.  \<open>None\<close> is the loop that never
  exits.
\<close>

partial_function (option)
  sampleLoop :: "(jsnum \<Rightarrow> 'a) \<Rightarrow> jsnum \<Rightarrow> jsnum \<Rightarrow> jsnum \<Rightarrow> 'a list \<Rightarrow> 'a list option"
where
  "sampleLoop row maxDistance step d data =
     (if js_le d maxDistance
      then sampleLoop row maxDistance step (js_add d step) (data @ [row d])
      else Some data)"

text \<open>\<^verbatim>\<open>typeof distance === 'number' ? distance * 2 : 0\<close> and \<^verbatim>\<open>Math.ceil(maxDistance / 20)\<close>\<close>

definition maxDistanceOf :: "app_state \<Rightarrow> jsnum" where
  "maxDistanceOf s = (case distance s of Num n \<Rightarrow> js_mul n (Fin 2) | EmptyStr \<Rightarrow> Fin 0)"

definition stepOf :: "jsnum \<Rightarrow> jsnum" where
  "stepOf maxDistance = js_ceil (js_div maxDistance (Fin 20))"

text \<open>The body of the loop of \<^verbatim>\<open>graphData\<close>.\<close>

definition graphRow :: "app_state \<Rightarrow> jsnum \<Rightarrow> graph_point" where
  "graphRow s d =
     (let consumed = js_div (js_mul d (numberOr0 (efficiency s))) (Fin 100);
          oldSystemCost = js_mul consumed (numberOr0 (pastFuelPrice s));
          newSystemCost =
            js_add (js_mul d (js_fin (139 / 20))) (js_mul consumed (numberOr0 (currentFuelPrice s)))
      in \<lparr>gp_distance = d,
          gp_oldSystem = js_round oldSystemCost,
          gp_newSystem = js_round newSystemCost\<rparr>)"

definition graphData :: "app_state \<Rightarrow> graph_point list option" where
  "graphData s =
     (if computedBreakdown s = None \<or> \<not> truthy (distance s) \<or> \<not> truthy (efficiency s)
         \<or> \<not> truthy (currentFuelPrice s) \<or> \<not> truthy (pastFuelPrice s)
      then Some []
      else
        let maxDistance = maxDistanceOf s;
            step = stepOf maxDistance
        in sampleLoop (graphRow s) maxDistance step (Fin 0) [])"

text \<open>The body of the loop of \<^verbatim>\<open>vehicleComparisonData\<close>.\<close>

definition vehicleRow :: "app_state \<Rightarrow> jsnum \<Rightarrow> vehicle_point" where
  "vehicleRow s d =
     (let otherVehicleType = (if vehicleType s = Electric then PetrolDiesel else Electric);
          otherEfficiency = defaultEfficiency otherVehicleType;
          otherCurrentPrice = defaultCurrentPrice otherVehicleType;
          otherPastPrice = defaultPastPrice otherVehicleType;
          currentConsumed = js_div (js_mul d (numberOr0 (efficiency s))) (Fin 100);
          currentNewCost =
            js_add (js_mul d (js_fin (139 / 20)))
              (js_mul currentConsumed (numberOr0 (currentFuelPrice s)));
          currentOldCost = js_mul currentConsumed (numberOr0 (pastFuelPrice s));
          otherConsumed = js_div (js_mul d otherEfficiency) (Fin 100);
          otherNewCost = js_add (js_mul d (js_fin (139 / 20))) (js_mul otherConsumed otherCurrentPrice);
          otherOldCost = js_mul otherConsumed otherPastPrice
      in \<lparr>vp_distance = d,
          vp_currentNew = js_round currentNewCost,
          vp_currentOld = js_round currentOldCost,
          vp_otherNew = js_round otherNewCost,
          vp_otherOld = js_round otherOldCost\<rparr>)"

definition vehicleComparisonData :: "app_state \<Rightarrow> vehicle_point list option" where
  "vehicleComparisonData s =
     (if computedBreakdown s = None \<or> \<not> truthy (distance s)
      then Some []
      else
        let maxDistance = maxDistanceOf s;
            step = stepOf maxDistance
        in sampleLoop (vehicleRow s) maxDistance step (Fin 0) [])"

text \<open>The body of the loop of \<^verbatim>\<open>efficiencyComparisonData\<close>.\<close>

definition efficiencyRow :: "app_state \<Rightarrow> jsnum \<Rightarrow> efficiency_point" where
  "efficiencyRow s d =
     (let baseEfficiency = numberOr0 (efficiency s);
          lessEfficientValue = js_add baseEfficiency (Fin 1);
          moreEfficientValue = js_max (Fin 0) (js_sub baseEfficiency (Fin 1));
          baseConsumed = js_div (js_mul d baseEfficiency) (Fin 100);
          baseOldCost = js_mul baseConsumed (numberOr0 (pastFuelPrice s));
          baseNewCost =
            js_add (js_mul d (js_fin (139 / 20))) (js_mul baseConsumed (numberOr0 (currentFuelPrice s)));
          lessEfficientConsumed = js_div (js_mul d lessEfficientValue) (Fin 100);
          lessEfficientCost =
            js_add (js_mul d (js_fin (139 / 20)))
              (js_mul lessEfficientConsumed (numberOr0 (currentFuelPrice s)));
          moreEfficientConsumed = js_div (js_mul d moreEfficientValue) (Fin 100);
          moreEfficientCost =
            js_add (js_mul d (js_fin (139 / 20)))
              (js_mul moreEfficientConsumed (numberOr0 (currentFuelPrice s)))
      in \<lparr>ep_distance = d,
          ep_oldSystem = js_round baseOldCost,
          ep_newSystem = js_round baseNewCost,
          ep_lessEfficient = js_round lessEfficientCost,
          ep_moreEfficient = js_round moreEfficientCost\<rparr>)"

definition efficiencyComparisonData :: "app_state \<Rightarrow> efficiency_point list option" where
  "efficiencyComparisonData s =
     (if computedBreakdown s = None \<or> \<not> truthy (distance s) \<or> \<not> truthy (efficiency s)
         \<or> \<not> truthy (currentFuelPrice s) \<or> \<not> truthy (pastFuelPrice s)
      then Some []
      else
        let maxDistance = maxDistanceOf s;
            step = stepOf maxDistance
        in sampleLoop (efficiencyRow s) maxDistance step (Fin 0) [])"

section \<open>Events\<close>

text \<open>
  The handlers of the form that write a state cell: the \<^verbatim>\<open>onChange\<close> of the select and
  of the four number boxes, the submit of the form, the Reset button and the three
  expand buttons.  (The language buttons write no cell of the component.)
\<close>

datatype event =
    ChangeVehicleType VehicleType
  | ChangeDistance field
  | ChangeCurrentFuelPrice field
  | ChangePastFuelPrice field
  | ChangeEfficiency field
  | Submit
  | Reset
  | ToggleGraph
  | ToggleVehicleComparison
  | ToggleEfficiencyComparison

fun dispatch :: "event \<Rightarrow> app_state \<Rightarrow> app_state" where
  "dispatch (ChangeVehicleType vt) s =
     s\<lparr>vehicleType := vt,
       efficiency := Num (defaultEfficiency vt),
       currentFuelPrice := Num (defaultCurrentPrice vt),
       pastFuelPrice := Num (defaultPastPrice vt)\<rparr>"
| "dispatch (ChangeDistance x) s = s\<lparr>distance := x\<rparr>"
| "dispatch (ChangeCurrentFuelPrice x) s = s\<lparr>currentFuelPrice := x\<rparr>"
| "dispatch (ChangePastFuelPrice x) s = s\<lparr>pastFuelPrice := x\<rparr>"
| "dispatch (ChangeEfficiency x) s = s\<lparr>efficiency := x\<rparr>"
| "dispatch Submit s = handleCalculate s"
| "dispatch Reset s =
     s\<lparr>vehicleType := PetrolDiesel,
       distance := Num (Fin 15000),
       efficiency := Num (defaultEfficiency PetrolDiesel),
       currentFuelPrice := Num (Fin 185),
       pastFuelPrice := Num (Fin 300),
       errors := [],
       computedBreakdown := None\<rparr>"
| "dispatch ToggleGraph s = s\<lparr>isGraphExpanded := \<not> isGraphExpanded s\<rparr>"
| "dispatch ToggleVehicleComparison s =
     s\<lparr>isVehicleComparisonExpanded := \<not> isVehicleComparisonExpanded s\<rparr>"
| "dispatch ToggleEfficiencyComparison s =
     s\<lparr>isEfficiencyComparisonExpanded := \<not> isEfficiencyComparisonExpanded s\<rparr>"

section \<open>The validation rules, as the specification words them\<close>

text \<open>
  The specification gives one rule per field: the value is required (neither unset nor
  NaN), has a lower bound (\<open>\<ge> 0\<close>, for the efficiency \<open>> 0\<close>) and an upper bound
  (\<open>\<le> 1,000,000\<close>, \<open>\<le> 1,000\<close>, \<open>\<le> 10,000\<close>).  Each rule yields the messages of
  its own field.  These definitions are compared with \<open>validateInputs\<close> below.
\<close>

definition distanceRule :: "field \<Rightarrow> string list" where
  "distanceRule x =
     (case x of
        EmptyStr \<Rightarrow> [''Annual distance is required'']
      | Num n \<Rightarrow>
          if n = NaN then [''Annual distance is required'']
          else if \<not> js_ge n (Fin 0) then [''Distance cannot be negative'']
          else if \<not> js_le n (Fin 1000000) then [''Distance seems unreasonably large'']
          else [])"

definition efficiencyRule :: "field \<Rightarrow> string list" where
  "efficiencyRule x =
     (case x of
        EmptyStr \<Rightarrow> [''Efficiency is required'']
      | Num n \<Rightarrow>
          if n = NaN then [''Efficiency is required'']
          else if \<not> js_gt n (Fin 0) then [''Efficiency must be greater than 0'']
          else if \<not> js_le n (Fin 1000) then [''Efficiency seems unreasonably large'']
          else [])"

definition priceLabelOf :: "VehicleType \<Rightarrow> string" where
  "priceLabelOf vt = (case vt of Electric \<Rightarrow> ''electricity price'' | PetrolDiesel \<Rightarrow> ''fuel price'')"

definition priceRule :: "string \<Rightarrow> VehicleType \<Rightarrow> field \<Rightarrow> string list" where
  "priceRule which vt x =
     (case x of
        EmptyStr \<Rightarrow> [which @ priceLabelOf vt @ '' is required'']
      | Num n \<Rightarrow>
          if n = NaN then [which @ priceLabelOf vt @ '' is required'']
          else if \<not> js_ge n (Fin 0) then [which @ priceLabelOf vt @ '' cannot be negative'']
          else if \<not> js_le n (Fin 10000) then [which @ priceLabelOf vt @ '' seems unreasonably large'']
          else [])"

section \<open>Chart sampling, as the specification words it\<close>

text \<open>
  The specification samples the distances \<open>0, step, 2 step, \<dots>\<close> up to twice the annual
  distance with \<open>step = ceil(maxDistance / 20)\<close>, and gives the cost under the old
  system and under the new system at an efficiency \<open>e\<close> and a distance \<open>d\<close>, rounded to
  a whole amount.  These definitions are compared with the three loops below.
  \<open>stepPositions maxDistance step\<close> are the multiples of a step up to a maximal distance;
  \<open>samplePositions n\<close> are the multiples of the exact \<open>ceil(2 n / 20)\<close> up to \<open>2 n\<close>.
\<close>

definition stepPositions :: "rat \<Rightarrow> rat \<Rightarrow> jsnum list" where
  "stepPositions maxDistance step =
     map (\<lambda>k. Fin (of_nat k * step)) [0 ..< Suc (nat \<lfloor>maxDistance / step\<rfloor>)]"

definition samplePositions :: "rat \<Rightarrow> jsnum list" where
  "samplePositions n =
     (let maxDistance = 2 * n;
          step = of_int \<lceil>maxDistance / 20\<rceil>
      in map (\<lambda>k. Fin (of_nat k * step)) [0 ..< Suc (nat \<lfloor>maxDistance / step\<rfloor>)])"

definition oldSystemCostAt :: "app_state \<Rightarrow> jsnum \<Rightarrow> jsnum \<Rightarrow> jsnum" where
  "oldSystemCostAt s e d =
     js_round (js_mul (js_div (js_mul d e) (Fin 100)) (numberOr0 (pastFuelPrice s)))"

definition newSystemCostAt :: "app_state \<Rightarrow> jsnum \<Rightarrow> jsnum \<Rightarrow> jsnum" where
  "newSystemCostAt s e d =
     js_round (js_add (js_mul d (js_fin (139 / 20)))
       (js_mul (js_div (js_mul d e) (Fin 100)) (numberOr0 (currentFuelPrice s))))"

section \<open>Example states\<close>

text \<open>States used below to run the handlers on concrete inputs.\<close>

definition bad_distance_efficiency_state :: app_state where
  "bad_distance_efficiency_state = initial_state\<lparr>distance := Num (Fin (- 1)), efficiency := Num (Fin 0)\<rparr>"

definition edited_invalid_state :: app_state where
  "edited_invalid_state = dispatch (ChangeDistance (Num (Fin (- 1)))) (dispatch Submit initial_state)"

definition negative_distance_state :: app_state where
  "negative_distance_state = initial_state\<lparr>distance := Num (Fin (- 1))\<rparr>"

definition zero_distance_state :: app_state where
  "zero_distance_state = dispatch Submit (dispatch (ChangeDistance (Num (Fin 0))) initial_state)"

definition unset_efficiency_state :: app_state where
  "unset_efficiency_state = dispatch (ChangeEfficiency EmptyStr) (dispatch Submit initial_state)"

definition half_efficiency_state :: app_state where
  "half_efficiency_state =
     dispatch Submit
       (dispatch (ChangeEfficiency (Num (Fin (1 / 2))))
          (dispatch (ChangeDistance (Num (Fin 2))) initial_state))"

definition huge_distance_state :: app_state where
  "huge_distance_state = dispatch (ChangeDistance (Num (Fin (9 * 10 ^ 307)))) (dispatch Submit initial_state)"

definition tiny_distance_state :: app_state where
  "tiny_distance_state = dispatch (ChangeDistance (Num (Fin (1 / 2 ^ 1074)))) (dispatch Submit initial_state)"

definition rounded_products_state :: app_state where
  "rounded_products_state = initial_state\<lparr>distance := Num (Fin 1234)\<rparr>"

definition half_km_state :: app_state where
  "half_km_state = dispatch Submit (dispatch (ChangeDistance (Num (Fin (1 / 2)))) initial_state)"

section \<open>Numbers: rounding, overflow, comparison\<close>

subsection \<open>Exponent and spacing\<close>

lemma pow2_less_imp_less: "(2::rat) powi m < 2 powi n \<Longrightarrow> m < n"
proof (rule ccontr)
  assume a: "(2::rat) powi m < 2 powi n" and "\<not> m < n"
  then have "n \<le> m" by simp
  then have "(2::rat) powi n \<le> 2 powi m" by (intro power_int_increasing) simp_all
  with a show False by simp
qed

lemma binade_up_bounds:
  "1 \<le> x \<Longrightarrow> 0 \<le> binade_up x \<and> 2 powi binade_up x \<le> x \<and> x < 2 powi (binade_up x + 1)"
proof (induction x rule: binade_up.induct)
  case (1 x)
  show ?case
  proof (cases "x < 2")
    case True
    with "1.prems" show ?thesis by (simp add: binade_up.simps[of x])
  next
    case False
    then have h: "1 \<le> x / 2" by simp
    from "1.IH"[OF False h] have ih: "0 \<le> binade_up (x / 2)"
      "2 powi binade_up (x / 2) \<le> x / 2" "x / 2 < 2 powi (binade_up (x / 2) + 1)"
      by simp_all
    define b where "b = binade_up (x / 2)"
    have e: "binade_up x = b + 1" using False by (simp add: binade_up.simps[of x] b_def)
    have p: "(2::rat) powi (k + 1) = 2 powi k * 2" for k by (rule power_int_add_1) simp
    have "2 powi (b + 1) \<le> x" using ih(2) by (simp add: p b_def)
    moreover have "x < 2 powi (b + 1 + 1)" using ih(3) unfolding p[of "b + 1"] by (simp add: b_def)
    moreover have "0 \<le> b + 1" using ih(1) by (simp add: b_def)
    ultimately show ?thesis unfolding e by simp
  qed
qed

lemma binade_down_bounds:
  "0 < x \<Longrightarrow> x < 1 \<Longrightarrow>
   binade_down x < 0 \<and> 2 powi binade_down x \<le> x \<and> x < 2 powi (binade_down x + 1)"
proof (induction x rule: binade_down.induct)
  case (1 x)
  have n: "\<not> (x \<le> 0 \<or> 1 \<le> x)" using "1.prems" by simp
  have e: "binade_down x = binade_down (x * 2) - 1" using n by (simp add: binade_down.simps[of x])
  have p: "(2::rat) powi (k + 1) = 2 powi k * 2" for k by (rule power_int_add_1) simp
  have q: "(2::rat) powi (k - 1) = 2 powi k / 2" for k using p[of "k - 1"] by simp
  show ?case
  proof (cases "x * 2 < 1")
    case True
    from "1.IH"[OF n _ True] "1.prems" have ih: "binade_down (x * 2) < 0"
      "2 powi binade_down (x * 2) \<le> x * 2" "x * 2 < 2 powi (binade_down (x * 2) + 1)"
      by simp_all
    define b where "b = binade_down (x * 2)"
    have "2 powi b \<le> x * 2" "x * 2 < 2 powi b * 2"
      using ih(2,3) p[of b] by (simp_all only: b_def)
    then have "2 powi (b - 1) \<le> x" "x < 2 powi b" unfolding q by simp_all
    then have "2 powi (b - 1) \<le> x" "x < 2 powi (b - 1 + 1)" by simp_all
    moreover have "b - 1 < 0" using ih(1) by (simp add: b_def)
    ultimately show ?thesis unfolding e b_def[symmetric] by simp
  next
    case False
    then have z: "binade_down (x * 2) = 0" by (simp add: binade_down.simps[of "x * 2"])
    show ?thesis unfolding e z using False "1.prems" by simp
  qed
qed

lemma binade_ge: "- 1022 \<le> binade x"
proof (cases "x < 1 / 2 ^ 1022")
  case True
  then show ?thesis by (simp add: binade_def)
next
  case False
  show ?thesis
  proof (cases "x < 1")
    case True
    have "(0::rat) < 1 / 2 ^ 1022" by simp
    with False have x0: "0 < x" by linarith
    from binade_down_bounds[OF x0 True] have "x < 2 powi (binade_down x + 1)" by simp
    moreover have "(2::rat) powi (- 1022) \<le> x" using False by (simp add: power_int_minus field_simps)
    ultimately have "(2::rat) powi (- 1022) < 2 powi (binade_down x + 1)" by simp
    then have "- 1022 < binade_down x + 1" by (rule pow2_less_imp_less)
    then show ?thesis using False True by (simp add: binade_def)
  next
    case F2: False
    then have "0 \<le> binade_up x" using binade_up_bounds[of x] by simp
    then show ?thesis using False F2 by (simp add: binade_def)
  qed
qed

lemma binade_bounds:
  assumes "1 / 2 ^ 1022 \<le> x"
  shows "2 powi binade x \<le> x" and "x < 2 powi (binade x + 1)"
proof -
  have "(0::rat) < 1 / 2 ^ 1022" by simp
  with assms have x0: "0 < x" by linarith
  have n: "\<not> x < 1 / 2 ^ 1022" using assms by simp
  show "2 powi binade x \<le> x" "x < 2 powi (binade x + 1)"
    using binade_down_bounds[OF x0] binade_up_bounds[of x] n
    by (auto simp: binade_def)
qed

subsection \<open>Rounding to the nearest double\<close>

lemma quantum_pos: "0 < quantum x"
  by (simp add: quantum_def)

lemma round_half_even_error: "\<bar>of_int (round_half_even x) - x\<bar> \<le> 1 / 2"
proof -
  have "of_int \<lfloor>x\<rfloor> \<le> x" "x < of_int \<lfloor>x\<rfloor> + 1" by linarith+
  then show ?thesis unfolding round_half_even_def Let_def by (auto simp: abs_le_iff) 
qed

lemma round_half_even_of_int: "round_half_even (of_int i) = i"
  by (simp add: round_half_even_def)

lemma round_half_even_nonneg: "0 \<le> x \<Longrightarrow> 0 \<le> round_half_even x"
  unfolding round_half_even_def Let_def by (auto simp: zero_le_floor) 

lemma round_half_even_nonpos: "x \<le> 0 \<Longrightarrow> round_half_even x \<le> 0"
proof -
  assume x: "x \<le> 0"
  then have f: "\<lfloor>x\<rfloor> \<le> 0" by (simp add: floor_le_zero)
  have g: "\<lfloor>x\<rfloor> + 1 \<le> 0" if "1 / 2 \<le> x - of_int \<lfloor>x\<rfloor>"
  proof -
    from that x have "of_int \<lfloor>x\<rfloor> < (0::rat)" by linarith
    then have "\<lfloor>x\<rfloor> < 0" by simp
    then show ?thesis by arith
  qed
  show ?thesis
  proof (cases "x - of_int \<lfloor>x\<rfloor> < 1 / 2")
    case True
    then show ?thesis unfolding round_half_even_def Let_def using f by simp
  next
    case False
    then have "1 / 2 \<le> x - of_int \<lfloor>x\<rfloor>" by linarith
    then have "\<lfloor>x\<rfloor> + 1 \<le> 0" by (rule g)
    with f show ?thesis unfolding round_half_even_def Let_def by simp
  qed
qed

lemma DBL_OVF_big: "(2 ^ 60 :: rat) < DBL_OVF"
  unfolding DBL_OVF_def by simp

lemma DBL_OVF_pos: "0 < DBL_OVF"
  unfolding DBL_OVF_def by simp

lemma js_fin_PInf: "DBL_OVF \<le> x \<Longrightarrow> js_fin x = PInf"
  unfolding js_fin_def by simp

lemma js_fin_cases:
  "js_fin x = PInf \<and> DBL_OVF \<le> x
   \<or> js_fin x = NInf \<and> x \<le> - DBL_OVF
   \<or> (\<exists>y. js_fin x = Fin y \<and> - DBL_OVF < x \<and> x < DBL_OVF
          \<and> \<bar>y - x\<bar> \<le> quantum x / 2 \<and> (0 \<le> x \<longrightarrow> 0 \<le> y) \<and> (x \<le> 0 \<longrightarrow> y \<le> 0))"
proof -
  define q where "q = quantum x"
  define r where "r = round_half_even (x / q)"
  have q: "0 < q" by (simp add: q_def quantum_pos)
  have "\<bar>of_int r - x / q\<bar> \<le> 1 / 2" unfolding r_def by (rule round_half_even_error)
  then have "\<bar>of_int r - x / q\<bar> * q \<le> 1 / 2 * q" using q by (intro mult_right_mono) simp_all
  moreover have "\<bar>of_int r - x / q\<bar> * q = \<bar>of_int r * q - x\<bar>"
    using q by (simp add: abs_mult_pos[symmetric] field_simps)
  ultimately have e: "\<bar>of_int r * q - x\<bar> \<le> q / 2" by simp
  have p: "0 \<le> x \<Longrightarrow> 0 \<le> of_int r * q"
    using q round_half_even_nonneg[of "x / q"] by (simp add: r_def)
  have n: "x \<le> 0 \<Longrightarrow> of_int r * q \<le> 0"
    using q round_half_even_nonpos[of "x / q"] by (simp add: r_def mult_le_0_iff divide_le_0_iff)
  show ?thesis
    unfolding js_fin_def using e p n DBL_OVF_pos by (auto simp: q_def r_def)
qed

lemma quantum_normal:
  assumes "1 / 2 ^ 1022 \<le> \<bar>x\<bar>"
  shows "quantum x * 2 ^ 52 \<le> \<bar>x\<bar>"
proof -
  have "quantum x * 2 ^ 52 = 2 powi (binade \<bar>x\<bar> - 52) * 2 powi 52" by (simp add: quantum_def)
  also have "\<dots> = 2 powi (binade \<bar>x\<bar> - 52 + 52)" by (subst power_int_add) simp_all
  also have "\<dots> \<le> \<bar>x\<bar>" using binade_bounds(1)[OF assms] by simp
  finally show ?thesis .
qed

lemma quantum_subnormal: "\<bar>x\<bar> < 1 / 2 ^ 1022 \<Longrightarrow> quantum x = 1 / 2 ^ 1074"
  by (simp add: quantum_def binade_def power_int_minus field_simps)

lemma quantum_le: "quantum x \<le> \<bar>x\<bar> / 2 ^ 52 + 1 / 2 ^ 1074"
proof (cases "\<bar>x\<bar> < 1 / 2 ^ 1022")
  case True
  then show ?thesis by (simp add: quantum_subnormal)
next
  case False
  then have "quantum x * 2 ^ 52 \<le> \<bar>x\<bar>" by (intro quantum_normal) simp
  then have "quantum x \<le> \<bar>x\<bar> / 2 ^ 52" by (simp add: field_simps)
  moreover have "(0::rat) \<le> 1 / 2 ^ 1074" by simp
  ultimately show ?thesis by linarith
qed

lemma js_fin_int:
  assumes "\<bar>i\<bar> < 2 ^ 53"
  shows "js_fin (of_int i) = Fin (of_int i)"
proof -
  define x :: rat where "x = of_int i"
  have ax: "\<bar>x\<bar> = of_int \<bar>i\<bar>" by (simp add: x_def)
  have "(of_int \<bar>i\<bar> :: rat) < of_int (2 ^ 53)" using assms by (simp only: of_int_less_iff)
  then have lt: "\<bar>x\<bar> < 2 ^ 53" unfolding ax by simp
  have "(2 ^ 53 :: rat) < 2 ^ 60" by simp
  with lt DBL_OVF_big have "\<bar>x\<bar> < DBL_OVF" by linarith
  then have range: "\<not> DBL_OVF \<le> x" "\<not> x \<le> - DBL_OVF" by (simp_all add: abs_less_iff)
  have ex: "\<exists>k::nat. quantum x = 1 / 2 ^ k"
  proof (cases "i = 0")
    case True
    then have "quantum x = 1 / 2 ^ 1074" by (simp add: x_def quantum_subnormal)
    then show ?thesis by (rule exI)
  next
    case False
    then have "1 \<le> \<bar>i\<bar>" by simp
    then have "(of_int 1 :: rat) \<le> of_int \<bar>i\<bar>" by (simp only: of_int_le_iff)
    then have one: "1 \<le> \<bar>x\<bar>" unfolding ax by simp
    have "(1 / 2 ^ 1022 :: rat) \<le> 1" by simp
    with one have nsub: "\<not> \<bar>x\<bar> < 1 / 2 ^ 1022" by linarith
    have b: "binade \<bar>x\<bar> = binade_up \<bar>x\<bar>" using one nsub by (simp add: binade_def)
    from binade_up_bounds[OF one] have bb: "0 \<le> binade_up \<bar>x\<bar>" "2 powi binade_up \<bar>x\<bar> \<le> \<bar>x\<bar>"
      by simp_all
    from bb(2) lt have "(2::rat) powi binade_up \<bar>x\<bar> < 2 powi 53" by simp
    then have "binade_up \<bar>x\<bar> < 53" by (rule pow2_less_imp_less)
    then have k: "binade_up \<bar>x\<bar> - 52 = - int (nat (52 - binade_up \<bar>x\<bar>))" by simp
    define k where "k = nat (52 - binade_up \<bar>x\<bar>)"
    note k = k[folded k_def]
    have "quantum x = 1 / 2 ^ k"
      unfolding quantum_def b k by (simp add: power_int_minus field_simps)
    then show ?thesis by blast
  qed
  then obtain k :: nat where k: "quantum x = 1 / 2 ^ k" by blast
  have "x / quantum x = of_int (i * 2 ^ k)" unfolding k by (simp add: x_def)
  then have "round_half_even (x / quantum x) = i * 2 ^ k" by (simp only: round_half_even_of_int)
  then have "of_int (round_half_even (x / quantum x)) * quantum x = x"
    unfolding k by (simp add: x_def)
  then show ?thesis unfolding x_def[symmetric] js_fin_def using range by simp
qed

lemma js_fin_0: "js_fin 0 = Fin 0"
  using js_fin_int[of 0] by simp

lemma js_fin_nat: "n < 2 ^ 53 \<Longrightarrow> js_fin (of_nat n) = Fin (of_nat n)"
  using js_fin_int[of "int n"] by (simp add: of_nat_less_numeral_power_cancel_iff)

lemma js_fin_numeral:
  "(numeral k :: int) < 2 ^ 53 \<Longrightarrow> js_fin (numeral k) = Fin (numeral k)"
  using js_fin_int[of "numeral k"] by simp

lemma js_fin_positive:
  assumes "1 / 2 ^ 1075 < x" and "x < DBL_OVF"
  shows "\<exists>y. js_fin x = Fin y \<and> 0 < y"
proof -
  have "(0::rat) < 1 / 2 ^ 1075" by simp
  with assms(1) have x0: "0 < x" by linarith
  define q where "q = quantum x"
  have q: "0 < q" by (simp add: q_def quantum_pos)
  have half: "1 / 2 < x / q"
  proof (cases "\<bar>x\<bar> < 1 / 2 ^ 1022")
    case True
    then have "q = 1 / 2 ^ 1074" by (simp add: q_def quantum_subnormal)
    then show ?thesis using assms(1) by (simp add: field_simps)
  next
    case False
    then have "q * 2 ^ 52 \<le> \<bar>x\<bar>" unfolding q_def by (intro quantum_normal) simp
    then have "2 ^ 52 \<le> x / q" using q x0 by (simp add: field_simps)
    moreover have "(1 / 2 :: rat) < 2 ^ 52" by simp
    ultimately show ?thesis by linarith
  qed
  have "\<bar>of_int (round_half_even (x / q)) - x / q\<bar> \<le> 1 / 2" by (rule round_half_even_error)
  with half have "(0::rat) < of_int (round_half_even (x / q))" by linarith
  then have "0 < of_int (round_half_even (x / q)) * q" using q by simp
  moreover have "js_fin x = Fin (of_int (round_half_even (x / q)) * q)"
    unfolding js_fin_def q_def using assms(2) x0 DBL_OVF_pos by simp
  ultimately show ?thesis by blast
qed

lemma js_fin_negative:
  assumes "x < - (1 / 2 ^ 1075)" and "- DBL_OVF < x"
  shows "\<exists>y. js_fin x = Fin y \<and> y < 0"
proof -
  have "(0::rat) < 1 / 2 ^ 1075" by simp
  with assms(1) have x0: "x < 0" by linarith
  define q where "q = quantum x"
  have q: "0 < q" by (simp add: q_def quantum_pos)
  have half: "x / q < - (1 / 2)"
  proof (cases "\<bar>x\<bar> < 1 / 2 ^ 1022")
    case True
    then have "q = 1 / 2 ^ 1074" by (simp add: q_def quantum_subnormal)
    then show ?thesis using assms(1) by (simp add: field_simps)
  next
    case False
    then have "q * 2 ^ 52 \<le> \<bar>x\<bar>" unfolding q_def by (intro quantum_normal) simp
    then have a: "q * 2 ^ 52 \<le> - x" using x0 by simp
    define t where "t = x / q"
    have "- x = q * (- t)" using q by (simp add: t_def)
    with a have "q * 2 ^ 52 \<le> q * (- t)" by (simp only:)
    then have "2 ^ 52 \<le> - t" using q by (simp only: mult_le_cancel_left_pos)
    moreover have "(1 / 2 :: rat) < 2 ^ 52" by simp
    ultimately have "t < - (1 / 2)" by linarith
    then show ?thesis unfolding t_def .
  qed
  have "\<bar>of_int (round_half_even (x / q)) - x / q\<bar> \<le> 1 / 2" by (rule round_half_even_error)
  with half have "of_int (round_half_even (x / q)) < (0::rat)" by linarith
  then have "of_int (round_half_even (x / q)) * q < 0" using q by (simp add: mult_less_0_iff)
  moreover have "js_fin x = Fin (of_int (round_half_even (x / q)) * q)"
    unfolding js_fin_def q_def using assms(2) x0 DBL_OVF_pos by simp
  ultimately show ?thesis by blast
qed

text \<open>
  The rounding error of a result below \<open>2^60\<close>: at most \<open>2^-53\<close> of the result, plus half
  a subnormal unit.
\<close>

lemma js_fin_approx:
  assumes "0 \<le> x" and "x < 2 ^ 60"
  shows "\<exists>y. js_fin x = Fin y \<and> 0 \<le> y \<and> \<bar>y - x\<bar> \<le> x / 2 ^ 53 + 1 / 2 ^ 1075"
proof -
  from assms DBL_OVF_big have r: "x < DBL_OVF" "- DBL_OVF < x" by linarith+
  from js_fin_cases[of x] r obtain y where
    y: "js_fin x = Fin y" "\<bar>y - x\<bar> \<le> quantum x / 2" "0 \<le> x \<longrightarrow> 0 \<le> y"
    by auto
  have "quantum x \<le> \<bar>x\<bar> / 2 ^ 52 + 1 / 2 ^ 1074" by (rule quantum_le)
  then have "quantum x / 2 \<le> x / 2 ^ 53 + 1 / 2 ^ 1075" using assms(1) by simp
  with y assms(1) show ?thesis by auto
qed

text \<open>Evaluation of a rounding on literals.\<close>

lemma js_fin_round:
  "\<bar>x\<bar> < 2 ^ 60 \<Longrightarrow> js_fin x = Fin (of_int (round_half_even (x / quantum x)) * quantum x)"
  unfolding js_fin_def using DBL_OVF_big by (simp add: abs_less_iff)

lemma rat_floor_numeral: "\<lfloor>numeral a / numeral b :: rat\<rfloor> = numeral a div numeral b"
  using floor_divide_of_int_eq[of "numeral a" "numeral b", where ?'a = rat] by simp

lemma rat_floor_one: "\<lfloor>1 / numeral b :: rat\<rfloor> = 1 div numeral b"
  using floor_divide_of_int_eq[of 1 "numeral b", where ?'a = rat] by simp

lemma rat_floor_neg_numeral: "\<lfloor>- (numeral a / numeral b) :: rat\<rfloor> = - numeral a div numeral b"
  using floor_divide_of_int_eq[of "- numeral a" "numeral b", where ?'a = rat] by simp

lemma rat_ceiling_numeral: "\<lceil>numeral a / numeral b :: rat\<rceil> = - (- numeral a div numeral b)"
  using ceiling_divide_eq_div[of "numeral a" "numeral b", where ?'a = rat] by simp

lemma rat_ceiling_one: "\<lceil>1 / numeral b :: rat\<rceil> = - (- 1 div numeral b)"
  using ceiling_divide_eq_div[of 1 "numeral b", where ?'a = rat] by simp

lemmas rat_floor_simps =
  rat_floor_numeral rat_floor_one rat_floor_neg_numeral rat_ceiling_numeral rat_ceiling_one

lemmas js_fin_eval =
  js_fin_round quantum_def binade_def binade_up.simps binade_down.simps round_half_even_def
  Let_def rat_floor_simps

lemma literal_6_95: "js_fin (139 / 20) = Fin (7825004352556237 / 1125899906842624)"
  by (simp add: js_fin_eval)

lemma literal_25_7: "js_fin (257 / 10) = Fin (7233906901463859 / 281474976710656)"
  by (simp add: js_fin_eval)

subsection \<open>Comparisons\<close>

lemma not_lt_iff_ge: "n \<noteq> NaN \<Longrightarrow> js_lt n (Fin a) = (\<not> js_ge n (Fin a))"
  by (cases n) (auto simp: js_ge_def)

lemma gt_iff_not_le: "n \<noteq> NaN \<Longrightarrow> js_gt n (Fin a) = (\<not> js_le n (Fin a))"
  by (cases n) (auto simp: js_gt_def)

lemma le_iff_not_gt: "n \<noteq> NaN \<Longrightarrow> js_le n (Fin a) = (\<not> js_gt n (Fin a))"
  by (cases n) (auto simp: js_gt_def)

section \<open>The validator against the rules\<close>

lemma distance_chain:
  "(if isMissing x then acc @ [''Annual distance is required'']
    else if js_lt (Number x) (Fin 0) then acc @ [''Distance cannot be negative'']
    else if js_gt (Number x) (Fin 1000000) then acc @ [''Distance seems unreasonably large'']
    else acc) = acc @ distanceRule x"
  by (cases x) (simp_all add: isMissing_def js_isNaN_def distanceRule_def not_lt_iff_ge gt_iff_not_le)

lemma efficiency_chain:
  "(if isMissing x then acc @ [''Efficiency is required'']
    else if js_le (Number x) (Fin 0) then acc @ [''Efficiency must be greater than 0'']
    else if js_gt (Number x) (Fin 1000) then acc @ [''Efficiency seems unreasonably large'']
    else acc) = acc @ efficiencyRule x"
proof (cases x)
  case EmptyStr
  then show ?thesis by (simp add: isMissing_def efficiencyRule_def)
next
  case (Num n)
  show ?thesis unfolding Num
    by (cases n) (auto simp: isMissing_def js_isNaN_def efficiencyRule_def js_gt_def)
qed

lemma price_chain:
  "(if isMissing x then acc @ [which @ priceLabelOf vt @ '' is required'']
    else if js_lt (Number x) (Fin 0) then acc @ [which @ priceLabelOf vt @ '' cannot be negative'']
    else if js_gt (Number x) (Fin 10000) then acc @ [which @ priceLabelOf vt @ '' seems unreasonably large'']
    else acc) = acc @ priceRule which vt x"
  by (cases x) (simp_all add: isMissing_def js_isNaN_def priceRule_def not_lt_iff_ge gt_iff_not_le)

lemma priceLabel_if:
  "(if vt = Electric then ''electricity price'' else ''fuel price'') = priceLabelOf vt"
  by (cases vt) (simp_all add: priceLabelOf_def)

lemma validateInputs_errors:
  "errors (snd (validateInputs s)) =
     distanceRule (distance s) @ efficiencyRule (efficiency s)
       @ priceRule ''Current '' (vehicleType s) (currentFuelPrice s)
       @ priceRule ''Past '' (vehicleType s) (pastFuelPrice s)"
  unfolding validateInputs_def Let_def priceLabel_if
  using price_chain[of _ _ "''Current ''"] price_chain[of _ _ "''Past ''"]
  by (simp add: distance_chain efficiency_chain)

lemma validateInputs_snd: "snd (validateInputs s) = s\<lparr>errors := errors (snd (validateInputs s))\<rparr>"
  unfolding validateInputs_def Let_def by simp

lemma validateInputs_fst: "fst (validateInputs s) = (errors (snd (validateInputs s)) = [])"
  unfolding validateInputs_def Let_def by simp

lemma distanceRule_Nil:
  "distanceRule x = [] \<longleftrightarrow> (\<exists>d. x = Num (Fin d) \<and> 0 \<le> d \<and> d \<le> 1000000)"
proof (cases x)
  case EmptyStr
  then show ?thesis by (simp add: distanceRule_def)
next
  case (Num n)
  show ?thesis unfolding Num by (cases n) (auto simp: distanceRule_def js_ge_def)
qed

lemma efficiencyRule_Nil:
  "efficiencyRule x = [] \<longleftrightarrow> (\<exists>e. x = Num (Fin e) \<and> 0 < e \<and> e \<le> 1000)"
proof (cases x)
  case EmptyStr
  then show ?thesis by (simp add: efficiencyRule_def)
next
  case (Num n)
  show ?thesis unfolding Num by (cases n) (auto simp: efficiencyRule_def js_gt_def)
qed

lemma priceRule_Nil:
  "priceRule which vt x = [] \<longleftrightarrow> (\<exists>p. x = Num (Fin p) \<and> 0 \<le> p \<and> p \<le> 10000)"
proof (cases x)
  case EmptyStr
  then show ?thesis by (simp add: priceRule_def)
next
  case (Num n)
  show ?thesis unfolding Num by (cases n) (auto simp: priceRule_def js_ge_def)
qed

lemma validateInputs_ok_iff:
  "fst (validateInputs s) \<longleftrightarrow>
     (\<exists>d e c p. distance s = Num (Fin d) \<and> 0 \<le> d \<and> d \<le> 1000000
        \<and> efficiency s = Num (Fin e) \<and> 0 < e \<and> e \<le> 1000
        \<and> currentFuelPrice s = Num (Fin c) \<and> 0 \<le> c \<and> c \<le> 10000
        \<and> pastFuelPrice s = Num (Fin p) \<and> 0 \<le> p \<and> p \<le> 10000)"
  unfolding validateInputs_fst validateInputs_errors
  by (simp add: distanceRule_Nil efficiencyRule_Nil priceRule_Nil) blast

section \<open>The calculation\<close>

lemma handleCalculate_invalid:
  "\<not> fst (validateInputs s) \<Longrightarrow> handleCalculate s = snd (validateInputs s)"
  unfolding handleCalculate_def by (simp add: case_prod_beta)

lemma handleCalculate_valid:
  "fst (validateInputs s) \<Longrightarrow>
   handleCalculate s =
     (snd (validateInputs s))\<lparr>computedBreakdown :=
        Some \<lparr>consumed = js_div (js_mul (Number (distance s)) (Number (efficiency s))) (Fin 100),
              previousEstimatedCost =
                js_mul (js_div (js_mul (Number (distance s)) (Number (efficiency s))) (Fin 100))
                  (Number (pastFuelPrice s)),
              newFuelCost =
                js_mul (js_div (js_mul (Number (distance s)) (Number (efficiency s))) (Fin 100))
                  (Number (currentFuelPrice s)),
              newTaxes = js_mul (Number (distance s)) roadTaxPerKm,
              newTotalCost =
                js_add
                  (js_mul (js_div (js_mul (Number (distance s)) (Number (efficiency s))) (Fin 100))
                     (Number (currentFuelPrice s)))
                  (js_mul (Number (distance s)) roadTaxPerKm)\<rparr>\<rparr>"
  unfolding handleCalculate_def by (simp add: case_prod_beta Let_def)

lemma js_fin_bounded:
  assumes "0 \<le> x" and "x \<le> b" and "b < 2 ^ 59"
  shows "\<exists>y. js_fin x = Fin y \<and> 0 \<le> y \<and> y \<le> 2 * b + 1
             \<and> \<bar>y - x\<bar> \<le> x / 2 ^ 53 + 1 / 2 ^ 1075"
proof -
  have "(2 ^ 59 :: rat) < 2 ^ 60" by simp
  with assms have "x < 2 ^ 60" by linarith
  from js_fin_approx[OF assms(1) this] obtain y where
    y: "js_fin x = Fin y" "0 \<le> y" "\<bar>y - x\<bar> \<le> x / 2 ^ 53 + 1 / 2 ^ 1075"
    by blast
  have "x / 2 ^ 53 \<le> x" using assms(1) by (simp add: field_simps)
  moreover have "(1 / 2 ^ 1075 :: rat) \<le> 1" by simp
  ultimately have "y \<le> 2 * b + 1" using y(3) assms(2) by linarith
  with y show ?thesis by blast
qed

text \<open>
  Within the validated bounds no operation of the calculation overflows, and the stored
  numbers are close to the exact values of the formulas.
\<close>

lemma breakdown_finite:
  assumes d: "0 \<le> d" "d \<le> 1000000" and e: "0 < e" "e \<le> 1000"
    and c: "0 \<le> c" "c \<le> 10000" and p: "0 \<le> (p::rat)" "p \<le> 10000"
  shows "\<exists>k prev fuel tax total.
           js_div (js_mul (Fin d) (Fin e)) (Fin 100) = Fin k
           \<and> js_mul (Fin k) (Fin p) = Fin prev
           \<and> js_mul (Fin k) (Fin c) = Fin fuel
           \<and> js_mul (Fin d) roadTaxPerKm = Fin tax
           \<and> js_add (Fin fuel) (Fin tax) = Fin total
           \<and> 0 \<le> k \<and> 0 \<le> prev \<and> 0 \<le> fuel \<and> 0 \<le> tax \<and> 0 \<le> total
           \<and> \<bar>k - d * e / 100\<bar> \<le> d * e / 2 ^ 58 + 1 / 2 ^ 1074
           \<and> \<bar>total - (fuel + tax)\<bar> \<le> (fuel + tax) / 2 ^ 53 + 1 / 2 ^ 1075"
proof -
  have de: "0 \<le> d * e" "d * e \<le> 1000000000"
    using d e mult_mono[of d 1000000 e 1000] by simp_all
  from js_fin_bounded[OF de] obtain y where
    y: "js_fin (d * e) = Fin y" "0 \<le> y" "y \<le> 2000000001"
       "\<bar>y - d * e\<bar> \<le> d * e / 2 ^ 53 + 1 / 2 ^ 1075"
    by auto
  have y100: "0 \<le> y / 100" "y / 100 \<le> 20000001" using y(2,3) by simp_all
  from js_fin_bounded[OF y100] obtain k where
    k: "js_fin (y / 100) = Fin k" "0 \<le> k" "k \<le> 40000003"
       "\<bar>k - y / 100\<bar> \<le> y / 100 / 2 ^ 53 + 1 / 2 ^ 1075"
    by auto
  have consumed: "js_div (js_mul (Fin d) (Fin e)) (Fin 100) = Fin k"
    using y(1) k(1) by simp
  define x where "x = d * e"
  define u :: rat where "u = 1 / 2 ^ 1075"
  have u: "0 \<le> u" "1 / 2 ^ 1074 = 2 * u" by (simp_all add: u_def)
  have pw: "(2::rat) ^ 53 = 9007199254740992" "(2::rat) ^ 58 = 288230376151711744" by simp_all
  have "\<bar>k - x / 100\<bar> \<le> x / 2 ^ 58 + 1 / 2 ^ 1074"
    using y(4) k(4) de(1) u(1) unfolding x_def[symmetric] u(2) u_def[symmetric] pw by linarith
  then have close: "\<bar>k - d * e / 100\<bar> \<le> d * e / 2 ^ 58 + 1 / 2 ^ 1074"
    unfolding x_def .
  have kp: "0 \<le> k * p" "k * p \<le> 400000030000"
    using k(2,3) p mult_mono[of k 40000003 p 10000] by simp_all
  from js_fin_bounded[OF kp] obtain prev where
    prev: "js_fin (k * p) = Fin prev" "0 \<le> prev"
    by auto
  have kc: "0 \<le> k * c" "k * c \<le> 400000030000"
    using k(2,3) c mult_mono[of k 40000003 c 10000] by simp_all
  from js_fin_bounded[OF kc] obtain fuel where
    fuel: "js_fin (k * c) = Fin fuel" "0 \<le> fuel" "fuel \<le> 800000060001"
    by auto
  define r :: rat where "r = 7825004352556237 / 1125899906842624"
  have r: "roadTaxPerKm = Fin r" "0 \<le> r" "r \<le> 7"
    by (simp_all add: roadTaxPerKm_def literal_6_95 r_def)
  have dr: "0 \<le> d * r" "d * r \<le> 7000000"
    using d r(2,3) mult_mono[of d 1000000 r 7] by simp_all
  from js_fin_bounded[OF dr] obtain tax where
    tax: "js_fin (d * r) = Fin tax" "0 \<le> tax" "tax \<le> 14000001"
    by auto
  have ft: "0 \<le> fuel + tax" "fuel + tax \<le> 800014060002"
    using fuel(2,3) tax(2,3) by simp_all
  from js_fin_bounded[OF ft] obtain total where
    total: "js_fin (fuel + tax) = Fin total" "0 \<le> total"
      "\<bar>total - (fuel + tax)\<bar> \<le> (fuel + tax) / 2 ^ 53 + 1 / 2 ^ 1075"
    by auto
  have "js_mul (Fin k) (Fin p) = Fin prev" "js_mul (Fin k) (Fin c) = Fin fuel"
    "js_mul (Fin d) roadTaxPerKm = Fin tax" "js_add (Fin fuel) (Fin tax) = Fin total"
    unfolding r(1) using prev(1) fuel(1) tax(1) total(1) by simp_all
  with consumed k(2) prev(2) fuel(2) tax(2) total(2,3) close show ?thesis by blast
qed

lemma initial_state_valid: "fst (validateInputs initial_state)"
  by (simp add: validateInputs_fst validateInputs_errors initial_state_def distanceRule_def
      efficiencyRule_def priceRule_def js_ge_def js_gt_def)

section \<open>Validation and calculation: results\<close>

subsection \<open>The breakdown and the error list\<close>

text \<open>
  Claim C1.  For every state that passes validation, the four inputs are finite numbers
  \<open>d\<close>, \<open>e\<close>, \<open>c\<close>, \<open>p\<close>, and \<open>handleCalculate\<close> stores five finite, non-negative
  numbers: consumed is \<open>d * e / 100\<close>, previousEstimatedCost is consumed \<open>* p\<close>,
  newFuelCost is consumed \<open>* c\<close>, newTaxes is \<open>d * 6.95\<close> and newTotalCost is
  newFuelCost \<open>+\<close> newTaxes, each operation being the operation on doubles and nothing else
  being applied to its result.  Within the validated bounds nothing overflows; consumed
  is within \<open>2^-58\<close> of the exact product (relative to \<open>d e\<close>), and the total within
  \<open>2^-53\<close> of the exact sum of the two stored costs.
\<close>

theorem handleCalculate_formulas:
  assumes "fst (validateInputs s)"
  shows "\<exists>d e c p k prev fuel tax total.
           distance s = Num (Fin d) \<and> efficiency s = Num (Fin e)
           \<and> currentFuelPrice s = Num (Fin c) \<and> pastFuelPrice s = Num (Fin p)
           \<and> computedBreakdown (handleCalculate s) =
               Some \<lparr>consumed = Fin k,
                     previousEstimatedCost = Fin prev,
                     newFuelCost = Fin fuel,
                     newTaxes = Fin tax,
                     newTotalCost = Fin total\<rparr>
           \<and> Fin k = js_div (js_mul (Fin d) (Fin e)) (Fin 100)
           \<and> Fin prev = js_mul (Fin k) (Fin p)
           \<and> Fin fuel = js_mul (Fin k) (Fin c)
           \<and> Fin tax = js_mul (Fin d) (js_fin (139 / 20))
           \<and> Fin total = js_add (Fin fuel) (Fin tax)
           \<and> 0 \<le> k \<and> 0 \<le> prev \<and> 0 \<le> fuel \<and> 0 \<le> tax \<and> 0 \<le> total
           \<and> \<bar>k - d * e / 100\<bar> \<le> d * e / 2 ^ 58 + 1 / 2 ^ 1074
           \<and> \<bar>total - (fuel + tax)\<bar> \<le> (fuel + tax) / 2 ^ 53 + 1 / 2 ^ 1075"
proof -
  from assms obtain d e c p where
    f: "distance s = Num (Fin d)" "efficiency s = Num (Fin e)"
       "currentFuelPrice s = Num (Fin c)" "pastFuelPrice s = Num (Fin p)"
    and b: "0 \<le> d" "d \<le> 1000000" "0 < e" "e \<le> 1000" "0 \<le> c" "c \<le> 10000" "0 \<le> p" "p \<le> 10000"
    unfolding validateInputs_ok_iff by blast
  from breakdown_finite[OF b] obtain k prev fuel tax total where
    v: "js_div (js_mul (Fin d) (Fin e)) (Fin 100) = Fin k"
       "js_mul (Fin k) (Fin p) = Fin prev"
       "js_mul (Fin k) (Fin c) = Fin fuel"
       "js_mul (Fin d) roadTaxPerKm = Fin tax"
       "js_add (Fin fuel) (Fin tax) = Fin total"
    and n: "0 \<le> k" "0 \<le> prev" "0 \<le> fuel" "0 \<le> tax" "0 \<le> total"
    and a: "\<bar>k - d * e / 100\<bar> \<le> d * e / 2 ^ 58 + 1 / 2 ^ 1074"
       "\<bar>total - (fuel + tax)\<bar> \<le> (fuel + tax) / 2 ^ 53 + 1 / 2 ^ 1075"
    by blast
  have b: "computedBreakdown (handleCalculate s) =
          Some \<lparr>consumed = Fin k, previousEstimatedCost = Fin prev, newFuelCost = Fin fuel,
                newTaxes = Fin tax, newTotalCost = Fin total\<rparr>"
    unfolding handleCalculate_valid[OF assms] f Number.simps v by simp
  have t: "Fin tax = js_mul (Fin d) (js_fin (139 / 20))"
    using v(4) by (simp only: roadTaxPerKm_def)
  note w = v(1)[symmetric] v(2)[symmetric] v(3)[symmetric] v(5)[symmetric]
  from f b w t n a show ?thesis by blast
qed

lemma rounded_products_state_facts:
  "fst (validateInputs rounded_products_state)"
  "distance rounded_products_state = Num (Fin 1234)"
  "efficiency rounded_products_state = Num (Fin (13 / 2))"
  "currentFuelPrice rounded_products_state = Num (Fin 185)"
  "pastFuelPrice rounded_products_state = Num (Fin 300)"
  by (simp_all add: validateInputs_fst validateInputs_errors rounded_products_state_def
      initial_state_def distanceRule_def efficiencyRule_def priceRule_def js_ge_def js_gt_def)

theorem handleCalculate_formulas_witness:
  "fst (validateInputs rounded_products_state)
   \<and> distance rounded_products_state = Num (Fin 1234)
   \<and> efficiency rounded_products_state = Num (Fin (13 / 2))
   \<and> currentFuelPrice rounded_products_state = Num (Fin 185)
   \<and> pastFuelPrice rounded_products_state = Num (Fin 300)
   \<and> computedBreakdown (handleCalculate rounded_products_state) =
       Some \<lparr>consumed = Fin (5644276970490429 / 70368744177664),
             previousEstimatedCost = Fin (6614387074793471 / 274877906944),
             newFuelCost = Fin (2039436014727987 / 137438953472),
             newTaxes = Fin (4714870786647655 / 549755813888),
             newTotalCost = Fin (3218153711389901 / 137438953472)\<rparr>
   \<and> (6614387074793471 / 274877906944 :: rat) < 1234 * (13 / 2) / 100 * 300"
proof -
  note s = rounded_products_state_facts
  from handleCalculate_formulas[OF s(1)] obtain d e c p k prev fuel tax total where
    i: "distance rounded_products_state = Num (Fin d)"
       "efficiency rounded_products_state = Num (Fin e)"
       "currentFuelPrice rounded_products_state = Num (Fin c)"
       "pastFuelPrice rounded_products_state = Num (Fin p)"
    and b: "computedBreakdown (handleCalculate rounded_products_state) =
               Some \<lparr>consumed = Fin k, previousEstimatedCost = Fin prev, newFuelCost = Fin fuel,
                     newTaxes = Fin tax, newTotalCost = Fin total\<rparr>"
    and v: "Fin k = js_div (js_mul (Fin d) (Fin e)) (Fin 100)"
       "Fin prev = js_mul (Fin k) (Fin p)"
       "Fin fuel = js_mul (Fin k) (Fin c)"
       "Fin tax = js_mul (Fin d) (js_fin (139 / 20))"
       "Fin total = js_add (Fin fuel) (Fin tax)"
    by blast
  from i have in_eq: "d = 1234" "e = 13 / 2" "c = 185" "p = 300"
    unfolding s by simp_all
  have k: "k = 5644276970490429 / 70368744177664"
    using v(1) unfolding in_eq by (simp add: js_fin_eval)
  have prev: "prev = 6614387074793471 / 274877906944"
    using v(2) unfolding in_eq k by (simp add: js_fin_eval)
  have fuel: "fuel = 2039436014727987 / 137438953472"
    using v(3) unfolding in_eq k by (simp add: js_fin_eval)
  have tax: "tax = 4714870786647655 / 549755813888"
    using v(4) unfolding in_eq by (simp add: js_fin_eval)
  have total: "total = 3218153711389901 / 137438953472"
    using v(5) unfolding fuel tax by (simp add: js_fin_eval)
  have lt: "(6614387074793471 / 274877906944 :: rat) < 1234 * (13 / 2) / 100 * 300"
    by simp
  show ?thesis
    using s b lt unfolding k prev fuel tax total by (simp only: simp_thms)
qed

text \<open>
  Claim C2.  The messages stored by \<open>validateInputs\<close> are the messages of the distance
  rule, then of the efficiency rule, then of the current-price rule, then of the
  past-price rule; each rule looks at its own field only and gives at most one message;
  the validator returns true exactly when the list is empty.  With distance \<open>-1\<close>,
  efficiency \<open>0\<close> and two acceptable prices the list is exactly the distance message
  followed by the efficiency message.
\<close>

theorem validateInputs_field_order:
  "errors (snd (validateInputs s)) =
     distanceRule (distance s) @ efficiencyRule (efficiency s)
       @ priceRule ''Current '' (vehicleType s) (currentFuelPrice s)
       @ priceRule ''Past '' (vehicleType s) (pastFuelPrice s)
   \<and> length (distanceRule (distance s)) \<le> 1
   \<and> length (efficiencyRule (efficiency s)) \<le> 1
   \<and> length (priceRule ''Current '' (vehicleType s) (currentFuelPrice s)) \<le> 1
   \<and> length (priceRule ''Past '' (vehicleType s) (pastFuelPrice s)) \<le> 1
   \<and> (fst (validateInputs s) \<longleftrightarrow> errors (snd (validateInputs s)) = [])
   \<and> (distance s = Num (Fin (- 1)) \<and> efficiency s = Num (Fin 0)
        \<and> priceRule ''Current '' (vehicleType s) (currentFuelPrice s) = []
        \<and> priceRule ''Past '' (vehicleType s) (pastFuelPrice s) = []
      \<longrightarrow> errors (snd (validateInputs s)) =
            [''Distance cannot be negative'', ''Efficiency must be greater than 0''])"
proof -
  have l1: "length (distanceRule x) \<le> 1" for x
    by (simp add: distanceRule_def split: field.split)
  have l2: "length (efficiencyRule x) \<le> 1" for x
    by (simp add: efficiencyRule_def split: field.split)
  have l3: "length (priceRule w vt x) \<le> 1" for w vt x
    by (simp add: priceRule_def split: field.split)
  have c: "distanceRule (Num (Fin (- 1))) = [''Distance cannot be negative'']"
    "efficiencyRule (Num (Fin 0)) = [''Efficiency must be greater than 0'']"
    by (simp_all add: distanceRule_def efficiencyRule_def js_ge_def js_gt_def)
  show ?thesis
    using l1 l2 l3 c by (simp add: validateInputs_errors validateInputs_fst)
qed


theorem validateInputs_field_order_witness:
  "distance bad_distance_efficiency_state = Num (Fin (- 1)) \<and> efficiency bad_distance_efficiency_state = Num (Fin 0)
   \<and> priceRule ''Current '' (vehicleType bad_distance_efficiency_state) (currentFuelPrice bad_distance_efficiency_state) = []
   \<and> priceRule ''Past '' (vehicleType bad_distance_efficiency_state) (pastFuelPrice bad_distance_efficiency_state) = []
   \<and> errors (snd (validateInputs bad_distance_efficiency_state)) =
       [''Distance cannot be negative'', ''Efficiency must be greater than 0'']
   \<and> \<not> fst (validateInputs bad_distance_efficiency_state)"
proof -
  have h: "distance bad_distance_efficiency_state = Num (Fin (- 1)) \<and> efficiency bad_distance_efficiency_state = Num (Fin 0)
     \<and> priceRule ''Current '' (vehicleType bad_distance_efficiency_state) (currentFuelPrice bad_distance_efficiency_state) = []
     \<and> priceRule ''Past '' (vehicleType bad_distance_efficiency_state) (pastFuelPrice bad_distance_efficiency_state) = []"
    by (simp add: bad_distance_efficiency_state_def initial_state_def priceRule_Nil)
  from h validateInputs_field_order[of bad_distance_efficiency_state]
  have e: "errors (snd (validateInputs bad_distance_efficiency_state)) =
       [''Distance cannot be negative'', ''Efficiency must be greater than 0'']"
    by blast
  from validateInputs_field_order[of bad_distance_efficiency_state]
  have "fst (validateInputs bad_distance_efficiency_state) \<longleftrightarrow> errors (snd (validateInputs bad_distance_efficiency_state)) = []"
    by blast
  with e have "\<not> fst (validateInputs bad_distance_efficiency_state)" by simp
  with h e show ?thesis by blast
qed

text \<open>
  Claim C3.  When validation fails, \<open>handleCalculate\<close> leaves the stored breakdown as it
  was.  Of all events, only Reset turns a stored breakdown into none, and Reset always
  does.
\<close>

theorem failed_validation_keeps_breakdown:
  "(\<not> fst (validateInputs s) \<longrightarrow> computedBreakdown (handleCalculate s) = computedBreakdown s)
   \<and> (computedBreakdown s \<noteq> None \<and> computedBreakdown (dispatch ev s) = None \<longrightarrow> ev = Reset)
   \<and> computedBreakdown (dispatch Reset s) = None"
proof -
  have a: "\<not> fst (validateInputs s) \<Longrightarrow> computedBreakdown (handleCalculate s) = computedBreakdown s"
    by (subst handleCalculate_invalid, assumption, subst validateInputs_snd) simp
  have b: "computedBreakdown (handleCalculate s) \<noteq> None" if "computedBreakdown s \<noteq> None"
  proof (cases "fst (validateInputs s)")
    case True
    then show ?thesis by (simp add: handleCalculate_valid)
  next
    case False
    then show ?thesis using a that by simp
  qed
  have c: "computedBreakdown s \<noteq> None \<Longrightarrow> computedBreakdown (dispatch ev s) = None \<Longrightarrow> ev = Reset"
    using b by (cases ev) auto
  show ?thesis using a c by simp
qed


theorem failed_validation_keeps_breakdown_witness:
  "\<not> fst (validateInputs edited_invalid_state)
   \<and> computedBreakdown edited_invalid_state \<noteq> None
   \<and> computedBreakdown (handleCalculate edited_invalid_state) = computedBreakdown edited_invalid_state
   \<and> computedBreakdown (dispatch Submit edited_invalid_state) \<noteq> None
   \<and> computedBreakdown (dispatch Reset edited_invalid_state) = None"
proof -
  have v: "fst (validateInputs initial_state)"
    by (rule initial_state_valid)
  have d: "distance edited_invalid_state = Num (Fin (- 1))"
    by (simp add: edited_invalid_state_def handleCalculate_valid[OF v])
  have h: "\<not> fst (validateInputs edited_invalid_state)"
    by (simp add: validateInputs_ok_iff d)
  have p: "computedBreakdown edited_invalid_state \<noteq> None"
    by (simp add: edited_invalid_state_def handleCalculate_valid[OF v])
  show ?thesis
    using h p failed_validation_keeps_breakdown[of edited_invalid_state Submit] by auto
qed

text \<open>
  Claim C4.  With distance 15000, efficiency 6.5, current price 185 and past price 300
  (the initial inputs) the breakdown is consumed 975, previousEstimatedCost 292500,
  newFuelCost 180375, newTaxes 104250, newTotalCost 284625; the savings are 7875, which
  is not negative, and the savings line is shown in green.
\<close>

theorem default_scenario_breakdown:
  "computedBreakdown (handleCalculate initial_state) =
     Some \<lparr>consumed = Fin 975,
           previousEstimatedCost = Fin 292500,
           newFuelCost = Fin 180375,
           newTaxes = Fin 104250,
           newTotalCost = Fin 284625\<rparr>
   \<and> distance initial_state = Num (Fin 15000)
   \<and> efficiency initial_state = Num (Fin (13 / 2))
   \<and> currentFuelPrice initial_state = Num (Fin 185)
   \<and> pastFuelPrice initial_state = Num (Fin 300)
   \<and> savings (handleCalculate initial_state) = Some (Fin 7875)
   \<and> js_ge (Fin 7875) (Fin 0)
   \<and> savingsClass (handleCalculate initial_state) = ''text-green-600''"
proof -
  have v: "fst (validateInputs initial_state)"
    by (rule initial_state_valid)
  have b: "computedBreakdown (handleCalculate initial_state) =
     Some \<lparr>consumed = Fin 975, previousEstimatedCost = Fin 292500, newFuelCost = Fin 180375,
           newTaxes = Fin 104250, newTotalCost = Fin 284625\<rparr>"
    unfolding handleCalculate_valid[OF v]
    by (simp add: initial_state_def roadTaxPerKm_def js_fin_eval)
  have s: "savings (handleCalculate initial_state) = Some (Fin 7875)"
    unfolding savings_def b by (simp add: js_sub_def js_fin_eval)
  show ?thesis
    using b s by (simp add: savingsClass_def js_ge_def initial_state_def)
qed

text \<open>
  Claim C9, as amended.  Running \<open>validateInputs\<close> changes the stored error list and
  nothing else: the inputs, the stored breakdown and the expansion flags are the same
  before and after.
\<close>

theorem validateInputs_frame:
  "snd (validateInputs s) = s\<lparr>errors := errors (snd (validateInputs s))\<rparr>
   \<and> vehicleType (snd (validateInputs s)) = vehicleType s
   \<and> distance (snd (validateInputs s)) = distance s
   \<and> efficiency (snd (validateInputs s)) = efficiency s
   \<and> currentFuelPrice (snd (validateInputs s)) = currentFuelPrice s
   \<and> pastFuelPrice (snd (validateInputs s)) = pastFuelPrice s
   \<and> computedBreakdown (snd (validateInputs s)) = computedBreakdown s
   \<and> isGraphExpanded (snd (validateInputs s)) = isGraphExpanded s
   \<and> isVehicleComparisonExpanded (snd (validateInputs s)) = isVehicleComparisonExpanded s
   \<and> isEfficiencyComparisonExpanded (snd (validateInputs s)) = isEfficiencyComparisonExpanded s"
  unfolding validateInputs_def Let_def by simp


text \<open>
  Claim C9 as stated fails: validating a state with a negative distance and an empty
  error list stores a message, so the state after validation differs from the state
  before.
\<close>

theorem validateInputs_writes_errors:
  "errors negative_distance_state = [] \<and> errors (snd (validateInputs negative_distance_state)) = [''Distance cannot be negative'']
   \<and> snd (validateInputs negative_distance_state) \<noteq> negative_distance_state"
proof -
  have e: "errors (snd (validateInputs negative_distance_state)) = [''Distance cannot be negative'']"
    unfolding validateInputs_errors
    by (simp add: negative_distance_state_def initial_state_def distanceRule_def efficiencyRule_def priceRule_def
        js_ge_def js_gt_def)
  have z: "errors negative_distance_state = []" by (simp add: negative_distance_state_def initial_state_def)
  from e z have "errors (snd (validateInputs negative_distance_state)) \<noteq> errors negative_distance_state" by simp
  then have "snd (validateInputs negative_distance_state) \<noteq> negative_distance_state" by auto
  with e z show ?thesis by simp
qed

subsection \<open>Boundaries of the validator\<close>

lemma distanceRule_large:
  "js_gt n (Fin 1000000) \<Longrightarrow> distanceRule (Num n) = [''Distance seems unreasonably large'']"
  by (cases n) (auto simp: distanceRule_def js_gt_def js_ge_def)

lemma efficiencyRule_large:
  "js_gt n (Fin 1000) \<Longrightarrow> efficiencyRule (Num n) = [''Efficiency seems unreasonably large'']"
  by (cases n) (auto simp: efficiencyRule_def js_gt_def)

lemma efficiencyRule_zero:
  "efficiencyRule (Num (Fin 0)) = [''Efficiency must be greater than 0'']"
  by (simp add: efficiencyRule_def js_gt_def)

lemma priceRule_negative:
  "js_lt n (Fin 0) \<Longrightarrow> priceRule which vt (Num n) = [which @ priceLabelOf vt @ '' cannot be negative'']"
  by (cases n) (auto simp: priceRule_def js_ge_def)

lemma priceRule_large:
  "js_gt n (Fin 10000)
   \<Longrightarrow> priceRule which vt (Num n) = [which @ priceLabelOf vt @ '' seems unreasonably large'']"
  by (cases n) (auto simp: priceRule_def js_gt_def js_ge_def)

lemma valid_rules_Nil:
  assumes "fst (validateInputs s)"
  shows "distanceRule (distance s) = []" "efficiencyRule (efficiency s) = []"
    "priceRule ''Current '' (vehicleType s) (currentFuelPrice s) = []"
    "priceRule ''Past '' (vehicleType s) (pastFuelPrice s) = []"
  using assms unfolding validateInputs_fst validateInputs_errors by simp_all

text \<open>
  Claim C6.  Starting from any state that passes validation and changing one field:
  distance 1,000,000 passes and every larger distance fails with the "unreasonably large"
  message; efficiency 0 fails with the "must be greater than 0" message, efficiency 1000
  passes and every larger efficiency fails; each price passes at 0 and at 10,000, fails
  below 0 with the "cannot be negative" message and above 10,000 with the "unreasonably
  large" message.
\<close>

theorem validation_boundaries:
  assumes "fst (validateInputs s)"
  shows "fst (validateInputs (s\<lparr>distance := Num (Fin 1000000)\<rparr>))
    \<and> (js_gt dn (Fin 1000000) \<longrightarrow>
          \<not> fst (validateInputs (s\<lparr>distance := Num dn\<rparr>))
          \<and> errors (snd (validateInputs (s\<lparr>distance := Num dn\<rparr>))) =
              [''Distance seems unreasonably large''])
    \<and> \<not> fst (validateInputs (s\<lparr>efficiency := Num (Fin 0)\<rparr>))
    \<and> errors (snd (validateInputs (s\<lparr>efficiency := Num (Fin 0)\<rparr>))) =
          [''Efficiency must be greater than 0'']
    \<and> fst (validateInputs (s\<lparr>efficiency := Num (Fin 1000)\<rparr>))
    \<and> (js_gt en (Fin 1000) \<longrightarrow>
          \<not> fst (validateInputs (s\<lparr>efficiency := Num en\<rparr>))
          \<and> errors (snd (validateInputs (s\<lparr>efficiency := Num en\<rparr>))) =
              [''Efficiency seems unreasonably large''])
    \<and> fst (validateInputs (s\<lparr>currentFuelPrice := Num (Fin 0)\<rparr>))
    \<and> fst (validateInputs (s\<lparr>currentFuelPrice := Num (Fin 10000)\<rparr>))
    \<and> (js_lt cl (Fin 0) \<longrightarrow>
          \<not> fst (validateInputs (s\<lparr>currentFuelPrice := Num cl\<rparr>))
          \<and> errors (snd (validateInputs (s\<lparr>currentFuelPrice := Num cl\<rparr>))) =
              [''Current '' @ (if vehicleType s = Electric then ''electricity price'' else ''fuel price'')
                 @ '' cannot be negative''])
    \<and> (js_gt ch (Fin 10000) \<longrightarrow>
          \<not> fst (validateInputs (s\<lparr>currentFuelPrice := Num ch\<rparr>))
          \<and> errors (snd (validateInputs (s\<lparr>currentFuelPrice := Num ch\<rparr>))) =
              [''Current '' @ (if vehicleType s = Electric then ''electricity price'' else ''fuel price'')
                 @ '' seems unreasonably large''])
    \<and> fst (validateInputs (s\<lparr>pastFuelPrice := Num (Fin 0)\<rparr>))
    \<and> fst (validateInputs (s\<lparr>pastFuelPrice := Num (Fin 10000)\<rparr>))
    \<and> (js_lt pl (Fin 0) \<longrightarrow>
          \<not> fst (validateInputs (s\<lparr>pastFuelPrice := Num pl\<rparr>))
          \<and> errors (snd (validateInputs (s\<lparr>pastFuelPrice := Num pl\<rparr>))) =
              [''Past '' @ (if vehicleType s = Electric then ''electricity price'' else ''fuel price'')
                 @ '' cannot be negative''])
    \<and> (js_gt ph (Fin 10000) \<longrightarrow>
          \<not> fst (validateInputs (s\<lparr>pastFuelPrice := Num ph\<rparr>))
          \<and> errors (snd (validateInputs (s\<lparr>pastFuelPrice := Num ph\<rparr>))) =
              [''Past '' @ (if vehicleType s = Electric then ''electricity price'' else ''fuel price'')
                 @ '' seems unreasonably large''])"
proof -
  note r = valid_rules_Nil[OF assms]
  have ok: "distanceRule (Num (Fin 1000000)) = []" "efficiencyRule (Num (Fin 1000)) = []"
    "priceRule w vt (Num (Fin 0)) = []" "priceRule w vt (Num (Fin 10000)) = []" for w vt
    by (simp_all add: distanceRule_Nil efficiencyRule_Nil priceRule_Nil)
  have d: "js_gt dn (Fin 1000000) \<longrightarrow>
          \<not> fst (validateInputs (s\<lparr>distance := Num dn\<rparr>))
          \<and> errors (snd (validateInputs (s\<lparr>distance := Num dn\<rparr>))) =
              [''Distance seems unreasonably large'']"
    unfolding validateInputs_fst validateInputs_errors using r by (simp add: distanceRule_large)
  have e: "js_gt en (Fin 1000) \<longrightarrow>
          \<not> fst (validateInputs (s\<lparr>efficiency := Num en\<rparr>))
          \<and> errors (snd (validateInputs (s\<lparr>efficiency := Num en\<rparr>))) =
              [''Efficiency seems unreasonably large'']"
    unfolding validateInputs_fst validateInputs_errors using r by (simp add: efficiencyRule_large)
  have c: "(js_lt cl (Fin 0) \<longrightarrow>
          \<not> fst (validateInputs (s\<lparr>currentFuelPrice := Num cl\<rparr>))
          \<and> errors (snd (validateInputs (s\<lparr>currentFuelPrice := Num cl\<rparr>))) =
              [''Current '' @ (if vehicleType s = Electric then ''electricity price'' else ''fuel price'')
                 @ '' cannot be negative''])
    \<and> (js_gt ch (Fin 10000) \<longrightarrow>
          \<not> fst (validateInputs (s\<lparr>currentFuelPrice := Num ch\<rparr>))
          \<and> errors (snd (validateInputs (s\<lparr>currentFuelPrice := Num ch\<rparr>))) =
              [''Current '' @ (if vehicleType s = Electric then ''electricity price'' else ''fuel price'')
                 @ '' seems unreasonably large''])"
    unfolding validateInputs_fst validateInputs_errors priceLabel_if using r
    by (simp add: priceRule_negative priceRule_large)
  have p: "(js_lt pl (Fin 0) \<longrightarrow>
          \<not> fst (validateInputs (s\<lparr>pastFuelPrice := Num pl\<rparr>))
          \<and> errors (snd (validateInputs (s\<lparr>pastFuelPrice := Num pl\<rparr>))) =
              [''Past '' @ (if vehicleType s = Electric then ''electricity price'' else ''fuel price'')
                 @ '' cannot be negative''])
    \<and> (js_gt ph (Fin 10000) \<longrightarrow>
          \<not> fst (validateInputs (s\<lparr>pastFuelPrice := Num ph\<rparr>))
          \<and> errors (snd (validateInputs (s\<lparr>pastFuelPrice := Num ph\<rparr>))) =
              [''Past '' @ (if vehicleType s = Electric then ''electricity price'' else ''fuel price'')
                 @ '' seems unreasonably large''])"
    unfolding validateInputs_fst validateInputs_errors priceLabel_if using r
    by (simp add: priceRule_negative priceRule_large)
  have f: "fst (validateInputs (s\<lparr>distance := Num (Fin 1000000)\<rparr>))"
    "\<not> fst (validateInputs (s\<lparr>efficiency := Num (Fin 0)\<rparr>))"
    "errors (snd (validateInputs (s\<lparr>efficiency := Num (Fin 0)\<rparr>))) =
          [''Efficiency must be greater than 0'']"
    "fst (validateInputs (s\<lparr>efficiency := Num (Fin 1000)\<rparr>))"
    "fst (validateInputs (s\<lparr>currentFuelPrice := Num (Fin 0)\<rparr>))"
    "fst (validateInputs (s\<lparr>currentFuelPrice := Num (Fin 10000)\<rparr>))"
    "fst (validateInputs (s\<lparr>pastFuelPrice := Num (Fin 0)\<rparr>))"
    "fst (validateInputs (s\<lparr>pastFuelPrice := Num (Fin 10000)\<rparr>))"
    unfolding validateInputs_fst validateInputs_errors using r ok
    by (simp_all add: efficiencyRule_zero)
  from d e c p f show ?thesis by blast
qed

theorem validation_boundaries_witness:
  "fst (validateInputs initial_state)
   \<and> fst (validateInputs (initial_state\<lparr>distance := Num (Fin 1000000)\<rparr>))
   \<and> js_gt (Fin (100000001 / 100)) (Fin 1000000)
   \<and> errors (snd (validateInputs (initial_state\<lparr>distance := Num (Fin (100000001 / 100))\<rparr>))) =
        [''Distance seems unreasonably large'']
   \<and> errors (snd (validateInputs (initial_state\<lparr>efficiency := Num (Fin 0)\<rparr>))) =
        [''Efficiency must be greater than 0'']
   \<and> js_gt (Fin (100001 / 100)) (Fin 1000)
   \<and> errors (snd (validateInputs (initial_state\<lparr>efficiency := Num (Fin (100001 / 100))\<rparr>))) =
        [''Efficiency seems unreasonably large'']
   \<and> js_lt (Fin (- 1)) (Fin 0)
   \<and> errors (snd (validateInputs (initial_state\<lparr>currentFuelPrice := Num (Fin (- 1))\<rparr>))) =
        [''Current fuel price cannot be negative'']
   \<and> errors (snd (validateInputs (initial_state\<lparr>pastFuelPrice := Num (Fin (- 1))\<rparr>))) =
        [''Past fuel price cannot be negative'']
   \<and> js_gt (Fin 10001) (Fin 10000)
   \<and> errors (snd (validateInputs (initial_state\<lparr>currentFuelPrice := Num (Fin 10001)\<rparr>))) =
        [''Current fuel price seems unreasonably large'']
   \<and> errors (snd (validateInputs (initial_state\<lparr>pastFuelPrice := Num (Fin 10001)\<rparr>))) =
        [''Past fuel price seems unreasonably large'']"
proof -
  have g: "js_gt (Fin (100000001 / 100)) (Fin 1000000)" "js_gt (Fin (100001 / 100)) (Fin 1000)"
    "js_lt (Fin (- 1)) (Fin 0)" "js_gt (Fin 10001) (Fin 10000)"
    by (simp_all add: js_gt_def)
  have v: "vehicleType initial_state = PetrolDiesel" by (simp add: initial_state_def)
  note a = validation_boundaries[OF initial_state_valid,
      of "Fin (100000001 / 100)" "Fin (100001 / 100)" "Fin (- 1)" "Fin 10001" "Fin (- 1)" "Fin 10001"]
  show ?thesis using initial_state_valid g a by (simp add: v)
qed

section \<open>The sampling loop\<close>

subsection \<open>One iteration, loops that never exit, and what a returned list holds\<close>

lemma sampleLoop_step:
  "js_le d m \<Longrightarrow> sampleLoop row m s d data = sampleLoop row m s (js_add d s) (data @ [row d])"
  by (subst sampleLoop.simps) simp

lemma sampleLoop_exit: "\<not> js_le d m \<Longrightarrow> sampleLoop row m s d data = Some data"
  by (subst sampleLoop.simps) simp

lemma sampleLoop_Some_not_invariant:
  assumes inv: "\<And>d. I d \<Longrightarrow> js_le d m \<and> I (js_add d s)"
    and ret: "sampleLoop row m' s' d data = Some y"
  shows "\<not> (m' = m \<and> s' = s \<and> I d)"
  using ret
proof (induct row m' s' d data y rule: sampleLoop.raw_induct[rotated 1, consumes 1, case_names 1])
  case (1 loop row m' s' d data y)
  show ?case
  proof
    assume a: "m' = m \<and> s' = s \<and> I d"
    then have b: "js_le d m" "I (js_add d s)" using inv by blast+
    with a 1(2) have "loop row m' s' (js_add d s') (data @ [row d]) = Some y" by simp
    then have "\<not> (m' = m \<and> s' = s \<and> I (js_add d s'))" by (rule 1(1))
    with a b show False by simp
  qed
qed

lemma sampleLoop_diverges:
  assumes "\<And>d. I d \<Longrightarrow> js_le d m \<and> I (js_add d s)" and "I d0"
  shows "sampleLoop row m s d0 data = None"
proof (cases "sampleLoop row m s d0 data")
  case None
  then show ?thesis .
next
  case (Some y)
  from sampleLoop_Some_not_invariant[of I m s, OF assms(1) Some] assms(2) show ?thesis by simp
qed

lemma sampleLoop_rows:
  assumes "sampleLoop row m s d data = Some y"
  shows "\<exists>ds. y = data @ map row ds"
  using assms
proof (induct row m s d data y rule: sampleLoop.raw_induct[rotated 1, consumes 1, case_names 1])
  case (1 loop row m s d data y)
  show ?case
  proof (cases "js_le d m")
    case True
    with 1(2) have "loop row m s (js_add d s) (data @ [row d]) = Some y" by simp
    then have "\<exists>ds. y = (data @ [row d]) @ map row ds" by (rule 1(1))
    then obtain ds where "y = (data @ [row d]) @ map row ds" by blast
    then have "y = data @ map row (d # ds)" by simp
    then show ?thesis by blast
  next
    case False
    with 1(2) have "y = data @ map row []" by simp
    then show ?thesis by blast
  qed
qed

lemma sampleLoop_PInf:
  "d = Fin 0 \<or> d = PInf \<Longrightarrow> sampleLoop row PInf PInf d data = None"
proof (rule sampleLoop_diverges[where I = "\<lambda>d. d = Fin 0 \<or> d = PInf"])
  fix d assume "d = Fin 0 \<or> d = PInf"
  then show "js_le d PInf \<and> (js_add d PInf = Fin 0 \<or> js_add d PInf = PInf)" by auto
qed

subsection \<open>The loop on a finite range\<close>

lemma floor_quotient_bounds:
  fixes m s :: rat
  assumes s: "0 < s" and m0: "0 \<le> m"
  shows "of_nat (nat \<lfloor>m / s\<rfloor>) * s \<le> m" and "m < of_nat (Suc (nat \<lfloor>m / s\<rfloor>)) * s"
proof -
  have q: "0 \<le> m / s" using s m0 by simp
  then have f: "0 \<le> \<lfloor>m / s\<rfloor>" by simp
  then have n: "(of_nat (nat \<lfloor>m / s\<rfloor>) :: rat) = of_int \<lfloor>m / s\<rfloor>" by simp
  have e: "m / s * s = m" using s by simp
  have "of_int \<lfloor>m / s\<rfloor> * s \<le> m / s * s"
    by (rule mult_right_mono) (use s in simp_all)
  then show "of_nat (nat \<lfloor>m / s\<rfloor>) * s \<le> m"
    unfolding n e .
  have "m / s < of_int \<lfloor>m / s\<rfloor> + 1" by linarith
  then have "m / s * s < (of_int \<lfloor>m / s\<rfloor> + 1) * s"
    using s by (rule mult_strict_right_mono)
  then have "m < (of_int \<lfloor>m / s\<rfloor> + 1) * s" unfolding e .
  then show "m < of_nat (Suc (nat \<lfloor>m / s\<rfloor>)) * s"
    using n by (simp add: algebra_simps)
qed

text \<open>
  With a whole step and a maximal distance below \<open>2^53\<close> every sampled distance is a
  whole multiple of the step and a double, so that \<^verbatim>\<open>d += step\<close> is exact.
\<close>

lemma sampleLoop_whole_steps:
  fixes st :: int
  assumes st: "1 \<le> st" and m0: "0 \<le> m" and b: "m + of_int st < 2 ^ 53"
    and i: "i \<le> Suc (nat \<lfloor>m / of_int st\<rfloor>)"
  shows "sampleLoop row (Fin m) (Fin (of_int st)) (Fin (of_nat i * of_int st)) data =
           Some (data @ map (\<lambda>k. row (Fin (of_nat k * of_int st))) [i ..< Suc (nat \<lfloor>m / of_int st\<rfloor>)])"
proof -
  define s :: rat where "s = of_int st"
  have s: "0 < s" using st by (simp add: s_def)
  have "sampleLoop row (Fin m) (Fin s) (Fin (of_nat i * s)) data =
           Some (data @ map (\<lambda>k. row (Fin (of_nat k * s))) [i ..< Suc (nat \<lfloor>m / s\<rfloor>)])"
    if "i \<le> Suc (nat \<lfloor>m / s\<rfloor>)"
    using that
  proof (induction "Suc (nat \<lfloor>m / s\<rfloor>) - i" arbitrary: i data)
    case 0
    then have i: "i = Suc (nat \<lfloor>m / s\<rfloor>)" by simp
    have gt: "m < of_nat i * s" unfolding i by (rule floor_quotient_bounds(2)[OF s m0])
    then have "\<not> js_le (Fin (of_nat i * s)) (Fin m)" by simp
    then have "sampleLoop row (Fin m) (Fin s) (Fin (of_nat i * s)) data = Some data"
      by (rule sampleLoop_exit)
    then show ?case unfolding i by simp
  next
    case (Suc n)
    then have lt: "i < Suc (nat \<lfloor>m / s\<rfloor>)" by simp
    then have "(of_nat i :: rat) \<le> of_nat (nat \<lfloor>m / s\<rfloor>)" by simp
    then have "of_nat i * s \<le> of_nat (nat \<lfloor>m / s\<rfloor>) * s"
      using s by (simp add: mult_right_mono)
    with floor_quotient_bounds(1)[OF s m0] have le: "of_nat i * s \<le> m" by simp
    have e: "of_nat i * s + s = of_int ((int i + 1) * st)" by (simp add: s_def algebra_simps)
    have "of_nat i * s + s < 2 ^ 53" using le b by (simp add: s_def)
    then have "(of_int ((int i + 1) * st) :: rat) < of_int (2 ^ 53)" unfolding e by simp
    then have "(int i + 1) * st < 2 ^ 53" by (simp only: of_int_less_iff)
    moreover have "0 \<le> (int i + 1) * st" using st by simp
    ultimately have "\<bar>(int i + 1) * st\<bar> < 2 ^ 53" by simp
    then have "js_fin (of_int ((int i + 1) * st)) = Fin (of_int ((int i + 1) * st))"
      by (rule js_fin_int)
    then have "js_fin (of_nat i * s + s) = Fin (of_nat (Suc i) * s)"
      unfolding e[symmetric] by (simp add: algebra_simps)
    then have next_d: "js_add (Fin (of_nat i * s)) (Fin s) = Fin (of_nat (Suc i) * s)"
      by simp
    have "sampleLoop row (Fin m) (Fin s) (Fin (of_nat i * s)) data =
            sampleLoop row (Fin m) (Fin s) (Fin (of_nat (Suc i) * s)) (data @ [row (Fin (of_nat i * s))])"
      using le by (subst sampleLoop_step) (simp_all only: js_le.simps next_d)
    also have "\<dots> = Some ((data @ [row (Fin (of_nat i * s))])
                     @ map (\<lambda>k. row (Fin (of_nat k * s))) [Suc i ..< Suc (nat \<lfloor>m / s\<rfloor>)])"
      using Suc.hyps(2) lt by (intro Suc.hyps(1)) simp_all
    also have "\<dots> = Some (data @ map (\<lambda>k. row (Fin (of_nat k * s))) [i ..< Suc (nat \<lfloor>m / s\<rfloor>)])"
      using lt by (subst (2) upt_conv_Cons) simp_all
    finally show ?case .
  qed
  from this[OF i[folded s_def]] show ?thesis unfolding s_def .
qed

lemma sampleLoop_positions:
  fixes st :: int
  assumes "1 \<le> st" and "0 \<le> m" and "m + of_int st < 2 ^ 53"
  shows "sampleLoop row (Fin m) (Fin (of_int st)) (Fin 0) [] =
           Some (map row (stepPositions m (of_int st)))"
  using sampleLoop_whole_steps[OF assms, of 0 row "[]"]
  by (simp add: stepPositions_def comp_def)

lemma stepPositions_facts:
  assumes st: "0 < st" and m: "0 \<le> m"
  shows "stepPositions m st \<noteq> []" and "hd (stepPositions m st) = Fin 0"
    and "\<forall>d\<in>set (stepPositions m st). js_le (Fin 0) d \<and> js_le d (Fin m)"
proof -
  show "stepPositions m st \<noteq> []" "hd (stepPositions m st) = Fin 0"
    unfolding stepPositions_def by (simp_all add: upt_conv_Cons hd_map del: upt_Suc)
  show "\<forall>d\<in>set (stepPositions m st). js_le (Fin 0) d \<and> js_le d (Fin m)"
  proof
    fix d assume "d \<in> set (stepPositions m st)"
    then have "d \<in> (\<lambda>k. Fin (of_nat k * st)) ` {0 ..< Suc (nat \<lfloor>m / st\<rfloor>)}"
      unfolding stepPositions_def set_map set_upt .
    then obtain k where "k \<in> {0 ..< Suc (nat \<lfloor>m / st\<rfloor>)}" and d: "d = Fin (of_nat k * st)"
      by blast
    then have k: "k \<le> nat \<lfloor>m / st\<rfloor>" by simp
    have "of_nat k * st \<le> of_nat (nat \<lfloor>m / st\<rfloor>) * st"
      using k st by (intro mult_right_mono) simp_all
    also have "\<dots> \<le> m" using st m by (intro floor_quotient_bounds(1)) simp_all
    finally have "of_nat k * st \<le> m" .
    moreover have "0 \<le> of_nat k * st" using st by simp
    ultimately show "js_le (Fin 0) d \<and> js_le d (Fin m)" unfolding d by simp
  qed
qed

lemma samplePositions_stepPositions:
  "samplePositions n = stepPositions (2 * n) (of_int \<lceil>2 * n / 20\<rceil>)"
  by (simp add: samplePositions_def stepPositions_def Let_def)

subsection \<open>The maximal distance and the step\<close>

lemma maxDistanceOf_positive:
  assumes d: "distance s = Num (Fin n)" and lo: "1 / 2 ^ 1071 \<le> n" and hi: "n \<le> 2 ^ 50"
  shows "\<exists>m. maxDistanceOf s = Fin m \<and> \<bar>m - 2 * n\<bar> \<le> n / 2 ^ 52 + 1 / 2 ^ 1075
             \<and> 20 / 2 ^ 1075 < m \<and> m \<le> 2 ^ 52"
proof -
  have "(0::rat) \<le> 1 / 2 ^ 1071" by simp
  with lo have n0: "0 \<le> n" by linarith
  have "(2 ^ 50 :: rat) * 2 < 2 ^ 60" by simp
  with hi have x: "0 \<le> n * 2" "n * 2 < 2 ^ 60" using n0 by simp_all
  from js_fin_approx[OF x] obtain m where
    m: "js_fin (n * 2) = Fin m" "\<bar>m - n * 2\<bar> \<le> n * 2 / 2 ^ 53 + 1 / 2 ^ 1075"
    by blast
  have e: "n * 2 / 2 ^ 53 = n / 2 ^ 52" by simp
  have a: "\<bar>m - 2 * n\<bar> \<le> n / 2 ^ 52 + 1 / 2 ^ 1075"
    using m(2) unfolding e by (simp add: mult.commute)
  define u :: rat where "u = 1 / 2 ^ 1075"
  have u: "0 < u" "1 / 2 ^ 1071 = 16 * u" "20 / 2 ^ 1075 = 20 * u" by (simp_all add: u_def)
  have pw: "(2::rat) ^ 52 = 4503599627370496" "(2::rat) ^ 50 = 1125899906842624" by simp_all
  have "20 * u < m" "m \<le> 4503599627370496"
    using a lo hi u(1) unfolding u(2) u_def[symmetric] pw by linarith+
  then have "20 / 2 ^ 1075 < m" "m \<le> 2 ^ 52" unfolding u(3) pw by simp_all
  moreover have "maxDistanceOf s = Fin m" using d m(1) by (simp add: maxDistanceOf_def)
  ultimately show ?thesis using a by blast
qed

lemma stepOf_positive:
  assumes lo: "20 / 2 ^ 1075 < m" and hi: "m \<le> 2 ^ 52"
  shows "\<exists>st::int. stepOf (Fin m) = Fin (of_int st) \<and> 1 \<le> st
           \<and> m / 20 - 1 / 10 < of_int st \<and> of_int st < m / 20 + 11 / 10
           \<and> m + of_int st < 2 ^ 53"
proof -
  define q where "q = m / 20"
  have q: "1 / 2 ^ 1075 < q" using lo by (simp add: q_def)
  have "(0::rat) < 1 / 2 ^ 1075" by simp
  with q have q0: "0 \<le> q" by linarith
  have "(2 ^ 52 :: rat) / 20 < 2 ^ 60" by simp
  moreover have "q \<le> 2 ^ 52 / 20" using hi by (simp add: q_def)
  ultimately have q60: "q < 2 ^ 60" by linarith
  with DBL_OVF_big have "q < DBL_OVF" by linarith
  from js_fin_positive[OF q this] obtain y where y: "js_fin q = Fin y" "0 < y" by blast
  from js_fin_approx[OF q0 q60] y(1) have a: "\<bar>y - q\<bar> \<le> q / 2 ^ 53 + 1 / 2 ^ 1075" by auto
  define st where "st = \<lceil>y\<rceil>"
  have s1: "1 \<le> st" using y(2) by (simp add: st_def)
  have c: "y \<le> of_int st" "of_int st < y + 1" unfolding st_def by linarith+
  have step: "stepOf (Fin m) = Fin (of_int st)"
    using y(1) by (simp add: stepOf_def q_def[symmetric] st_def)
  define u :: rat where "u = 1 / 2 ^ 1075"
  have u: "0 < u" "u < 1 / 100" by (simp_all add: u_def)
  have pw: "(2::rat) ^ 52 = 4503599627370496" "(2::rat) ^ 53 = 9007199254740992" by simp_all
  have qm: "q = m / 20" by (rule q_def)
  have "q - 1 / 10 < of_int st" "of_int st < q + 11 / 10" "m + of_int st < 9007199254740992"
    using a c hi q0 u unfolding u_def[symmetric] pw qm by linarith+
  then have "m / 20 - 1 / 10 < of_int st" "of_int st < m / 20 + 11 / 10" "m + of_int st < 2 ^ 53"
    unfolding qm pw by simp_all
  with step s1 show ?thesis by blast
qed

text \<open>
  For a whole number of kilometres up to \<open>2^50\<close> the doubled distance is exact and the
  rounded quotient has the ceiling of the exact quotient.
\<close>

lemma maxDistanceOf_whole:
  assumes d: "distance s = Num (Fin n)" and z: "n \<in> \<int>" and lo: "1 \<le> n" and hi: "n \<le> 2 ^ 50"
  shows "maxDistanceOf s = Fin (2 * n)"
proof -
  from z obtain j :: int where j: "n = of_int j" by (auto elim: Ints_cases)
  have "(of_int j :: rat) \<le> of_int (2 ^ 50)" using hi unfolding j by simp
  then have "j \<le> 2 ^ 50" by (simp only: of_int_le_iff)
  moreover have "(of_int 1 :: rat) \<le> of_int j" using lo unfolding j by simp
  then have "1 \<le> j" by (simp only: of_int_le_iff)
  ultimately have "\<bar>j * 2\<bar> < 2 ^ 53" by simp
  then have "js_fin (of_int (j * 2)) = Fin (of_int (j * 2))" by (rule js_fin_int)
  then have "js_fin (n * 2) = Fin (2 * n)" unfolding j by (simp add: mult.commute)
  then show ?thesis using d by (simp add: maxDistanceOf_def)
qed

lemma stepOf_whole:
  assumes z: "n \<in> \<int>" and lo: "1 \<le> n" and hi: "n \<le> 2 ^ 50"
  shows "stepOf (Fin (2 * n)) = Fin (of_int \<lceil>2 * n / 20\<rceil>)"
proof -
  from z obtain j :: int where j: "n = of_int j" by (auto elim: Ints_cases)
  have "(of_int j :: rat) \<le> of_int (2 ^ 50)" using hi unfolding j by simp
  then have jhi: "j \<le> 2 ^ 50" by (simp only: of_int_le_iff)
  have "(of_int 1 :: rat) \<le> of_int j" using lo unfolding j by simp
  then have jlo: "1 \<le> j" by (simp only: of_int_le_iff)
  define f where "f = j div 10"
  define r where "r = j mod 10"
  have jr: "j = 10 * f + r" and r: "0 \<le> r" "r < 10" by (simp_all add: f_def r_def)
  define q :: rat where "q = 2 * n / 20"
  have q: "q = of_int f + of_int r / 10" unfolding q_def j by (simp add: jr)
  have f: "0 \<le> f" "f \<le> 112589990684262" using jlo jhi jr r by simp_all
  show ?thesis
  proof (cases "r = 0")
    case True
    then have qf: "q = of_int f" using q by simp
    have "\<bar>f\<bar> < 2 ^ 53" using f by simp
    then have "js_fin (of_int f) = Fin (of_int f)" by (rule js_fin_int)
    then have "js_fin q = Fin q" unfolding qf .
    then have "stepOf (Fin (2 * n)) = Fin (of_int \<lceil>q\<rceil>)"
      by (simp add: stepOf_def q_def[symmetric])
    then show ?thesis unfolding q_def .
  next
    case False
    with r have r1: "1 \<le> r" "r \<le> 9" by simp_all
    then have "(of_int 1 :: rat) \<le> of_int r" "(of_int r :: rat) \<le> of_int 9"
      by (simp_all only: of_int_le_iff)
    then have rr: "(1::rat) \<le> of_int r" "(of_int r :: rat) \<le> 9" by simp_all
    have "(of_int 0 :: rat) \<le> of_int f" "(of_int f :: rat) \<le> of_int 112589990684262"
      using f by (simp_all only: of_int_le_iff)
    then have ff: "(0::rat) \<le> of_int f" "(of_int f :: rat) \<le> 112589990684262" by simp_all
    have qb: "of_int f + 1 / 10 \<le> q" "q \<le> of_int f + 9 / 10" using rr unfolding q by simp_all
    have q0: "0 \<le> q" using qb ff by linarith
    have q60: "q < 2 ^ 60" using qb ff by simp
    from js_fin_approx[OF q0 q60] obtain y where
      y: "js_fin q = Fin y" "\<bar>y - q\<bar> \<le> q / 2 ^ 53 + 1 / 2 ^ 1075"
      by blast
    define u :: rat where "u = 1 / 2 ^ 1075"
    have u: "0 < u" "u < 1 / 100" by (simp_all add: u_def)
    have pw: "(2::rat) ^ 53 = 9007199254740992" by simp
    have yb: "of_int f < y" "y < of_int f + 1"
      using y(2) qb ff u unfolding u_def[symmetric] pw by linarith+
    have "\<lceil>y\<rceil> = f + 1" using yb by (intro ceiling_unique) simp_all
    moreover have "\<lceil>q\<rceil> = f + 1" using qb by (intro ceiling_unique) simp_all
    ultimately have "\<lceil>y\<rceil> = \<lceil>q\<rceil>" by simp
    then have "stepOf (Fin (2 * n)) = Fin (of_int \<lceil>q\<rceil>)"
      using y(1) by (simp add: stepOf_def q_def[symmetric])
    then show ?thesis unfolding q_def .
  qed
qed

lemma sampling_whole:
  assumes d: "distance s = Num (Fin n)" and z: "n \<in> \<int>" and lo: "1 \<le> n" and hi: "n \<le> 2 ^ 50"
  shows "sampleLoop row (maxDistanceOf s) (stepOf (maxDistanceOf s)) (Fin 0) [] =
           Some (map row (samplePositions n))"
proof -
  define st where "st = \<lceil>2 * n / 20\<rceil>"
  have "0 < 2 * n / 20" using lo by simp
  then have "0 < st" unfolding st_def by (simp only: zero_less_ceiling)
  then have s1: "1 \<le> st" by simp
  have "of_int st < 2 * n / 20 + 1" unfolding st_def by linarith
  moreover have pw: "(2::rat) ^ 50 = 1125899906842624" "(2::rat) ^ 53 = 9007199254740992"
    by simp_all
  ultimately have "2 * n + of_int st < 9007199254740992" using hi lo unfolding pw by linarith
  then have b: "2 * n + of_int st < 2 ^ 53" unfolding pw .
  have m0: "0 \<le> 2 * n" using lo by simp
  show ?thesis
    unfolding maxDistanceOf_whole[OF d z lo hi] stepOf_whole[OF z lo hi]
      samplePositions_stepPositions st_def[symmetric]
    by (rule sampleLoop_positions[OF s1 m0 b])
qed

subsection \<open>The three generators\<close>

lemma graphData_guard:
  "computedBreakdown s = None \<or> \<not> truthy (distance s) \<or> \<not> truthy (efficiency s)
     \<or> \<not> truthy (currentFuelPrice s) \<or> \<not> truthy (pastFuelPrice s) \<Longrightarrow> graphData s = Some []"
  unfolding graphData_def by simp

lemma efficiencyComparisonData_guard:
  "computedBreakdown s = None \<or> \<not> truthy (distance s) \<or> \<not> truthy (efficiency s)
     \<or> \<not> truthy (currentFuelPrice s) \<or> \<not> truthy (pastFuelPrice s)
   \<Longrightarrow> efficiencyComparisonData s = Some []"
  unfolding efficiencyComparisonData_def by simp

lemma vehicleComparisonData_guard:
  "computedBreakdown s = None \<or> \<not> truthy (distance s) \<Longrightarrow> vehicleComparisonData s = Some []"
  unfolding vehicleComparisonData_def by simp

lemma graphData_loop:
  "computedBreakdown s \<noteq> None \<Longrightarrow> truthy (distance s) \<Longrightarrow> truthy (efficiency s)
   \<Longrightarrow> truthy (currentFuelPrice s) \<Longrightarrow> truthy (pastFuelPrice s)
   \<Longrightarrow> graphData s = sampleLoop (graphRow s) (maxDistanceOf s) (stepOf (maxDistanceOf s)) (Fin 0) []"
  unfolding graphData_def by (auto simp: Let_def)

lemma efficiencyComparisonData_loop:
  "computedBreakdown s \<noteq> None \<Longrightarrow> truthy (distance s) \<Longrightarrow> truthy (efficiency s)
   \<Longrightarrow> truthy (currentFuelPrice s) \<Longrightarrow> truthy (pastFuelPrice s)
   \<Longrightarrow> efficiencyComparisonData s =
         sampleLoop (efficiencyRow s) (maxDistanceOf s) (stepOf (maxDistanceOf s)) (Fin 0) []"
  unfolding efficiencyComparisonData_def by (auto simp: Let_def)

lemma vehicleComparisonData_loop:
  "computedBreakdown s \<noteq> None \<Longrightarrow> truthy (distance s)
   \<Longrightarrow> vehicleComparisonData s =
         sampleLoop (vehicleRow s) (maxDistanceOf s) (stepOf (maxDistanceOf s)) (Fin 0) []"
  unfolding vehicleComparisonData_def by (auto simp: Let_def)

lemma samplePositions_hd:
  "samplePositions n \<noteq> [] \<and> hd (samplePositions n) = Fin 0"
  unfolding samplePositions_def Let_def by (simp add: upt_conv_Cons hd_map del: upt_Suc)

subsection \<open>The sampled distances\<close>

lemma submitted_initial:
  "computedBreakdown (dispatch Submit initial_state) \<noteq> None"
  "distance (dispatch Submit initial_state) = Num (Fin 15000)"
  "efficiency (dispatch Submit initial_state) = Num (Fin (13 / 2))"
  "currentFuelPrice (dispatch Submit initial_state) = Num (Fin 185)"
  "pastFuelPrice (dispatch Submit initial_state) = Num (Fin 300)"
  "vehicleType (dispatch Submit initial_state) = PetrolDiesel"
  using initial_state_valid
  by (simp_all add: handleCalculate_valid initial_state_def validateInputs_def Let_def)

lemma samplePositions_15000:
  "samplePositions 15000 = map (\<lambda>k. Fin (of_nat k * 1500)) [0 ..< 21]"
  unfolding samplePositions_def Let_def by simp

lemma zero_distance_state_facts:
  "computedBreakdown zero_distance_state \<noteq> None" "distance zero_distance_state = Num (Fin 0)"
proof -
  let ?s = "dispatch (ChangeDistance (Num (Fin 0))) initial_state"
  have v: "fst (validateInputs ?s)"
    by (simp add: validateInputs_fst validateInputs_errors initial_state_def distanceRule_def
        efficiencyRule_def priceRule_def js_ge_def js_gt_def)
  show "computedBreakdown zero_distance_state \<noteq> None"
    unfolding zero_distance_state_def using v by (simp add: handleCalculate_valid del: dispatch.simps(2))
  show "distance zero_distance_state = Num (Fin 0)"
    unfolding zero_distance_state_def using v
    by (simp add: handleCalculate_valid validateInputs_def Let_def)
qed

lemma edited_invalid_state_facts:
  "computedBreakdown edited_invalid_state \<noteq> None"
  "distance edited_invalid_state = Num (Fin (- 1))"
  unfolding edited_invalid_state_def using submitted_initial by simp_all

lemma half_km_state_facts:
  "computedBreakdown half_km_state \<noteq> None"
  "distance half_km_state = Num (Fin (1 / 2))"
  "efficiency half_km_state = Num (Fin (13 / 2))"
  "currentFuelPrice half_km_state = Num (Fin 185)"
  "pastFuelPrice half_km_state = Num (Fin 300)"
proof -
  let ?s = "dispatch (ChangeDistance (Num (Fin (1 / 2)))) initial_state"
  have v: "fst (validateInputs ?s)"
    by (simp add: validateInputs_fst validateInputs_errors initial_state_def distanceRule_def
        efficiencyRule_def priceRule_def js_ge_def js_gt_def)
  have h: "half_km_state = handleCalculate ?s" by (simp add: half_km_state_def)
  show "computedBreakdown half_km_state \<noteq> None"
    unfolding h handleCalculate_valid[OF v] by simp
  show "distance half_km_state = Num (Fin (1 / 2))" "efficiency half_km_state = Num (Fin (13 / 2))"
    "currentFuelPrice half_km_state = Num (Fin 185)" "pastFuelPrice half_km_state = Num (Fin 300)"
    unfolding h handleCalculate_valid[OF v]
    by (simp_all add: validateInputs_def Let_def initial_state_def)
qed

lemma sampling_negative:
  assumes d: "distance s = Num (Fin n)" and n: "n \<le> - (1 / 2 ^ 1074)"
  shows "sampleLoop row (maxDistanceOf s) (stepOf (maxDistanceOf s)) (Fin 0) [] = Some []"
proof -
  have md: "maxDistanceOf s = js_fin (n * 2)" using d by (simp add: maxDistanceOf_def)
  have "(1 / 2 ^ 1075 :: rat) * 2 = 1 / 2 ^ 1074" by simp
  moreover have "(0 :: rat) < 1 / 2 ^ 1075" by simp
  ultimately have x: "n * 2 < - (1 / 2 ^ 1075)" using n by linarith
  have "\<not> js_le (Fin 0) (js_fin (n * 2))"
  proof (cases "n * 2 \<le> - DBL_OVF")
    case True
    then have "js_fin (n * 2) = NInf" using DBL_OVF_pos by (simp add: js_fin_def)
    then show ?thesis by simp
  next
    case False
    then have "- DBL_OVF < n * 2" by simp
    from js_fin_negative[OF x this] show ?thesis by auto
  qed
  then show ?thesis unfolding md by (rule sampleLoop_exit)
qed

text \<open>
  Claim C5, as amended.  With a breakdown present and a finite distance \<open>n\<close>:
  when \<open>n\<close> is zero or negative the three generators return the empty sequence.
  When \<open>2^-1071 \<le> n \<le> 2^50\<close>, the maximal distance \<open>m\<close> is the double of \<open>n\<close> (up to
  the rounding of the product), the step is the whole number \<^verbatim>\<open>Math.ceil(maxDistance / 20)\<close>
  of the rounded quotient, at least 1 and within \<open>(m/20 - 0.1, m/20 + 1.1)\<close>; the vehicle
  comparison returns one row for each of the distances \<open>0, step, 2 step, \<dots>\<close> up to \<open>m\<close>,
  and so do the other two generators when the efficiency and the two prices are numbers
  other than zero; the sequence of distances is not empty, starts at 0 and stays within
  \<open>[0, m]\<close>.  When moreover \<open>n\<close> is a whole number, \<open>m\<close> is \<open>2 n\<close> and the step is
  exactly \<open>ceil(2 n / 20)\<close>.
\<close>

theorem chart_sampling:
  assumes "computedBreakdown s \<noteq> None" and "distance s = Num (Fin n)"
  shows "(n = 0 \<or> n \<le> - (1 / 2 ^ 1074) \<longrightarrow>
            graphData s = Some [] \<and> vehicleComparisonData s = Some []
            \<and> efficiencyComparisonData s = Some [])
         \<and> (1 / 2 ^ 1071 \<le> n \<and> n \<le> 2 ^ 50 \<longrightarrow>
              (\<exists>m st. maxDistanceOf s = Fin m \<and> \<bar>m - 2 * n\<bar> \<le> n / 2 ^ 52 + 1 / 2 ^ 1075
                 \<and> stepOf (maxDistanceOf s) = Fin (of_int st) \<and> 1 \<le> st
                 \<and> m / 20 - 1 / 10 < of_int st \<and> of_int st < m / 20 + 11 / 10
                 \<and> vehicleComparisonData s = Some (map (vehicleRow s) (stepPositions m (of_int st)))
                 \<and> (truthy (efficiency s) \<and> truthy (currentFuelPrice s) \<and> truthy (pastFuelPrice s) \<longrightarrow>
                      graphData s = Some (map (graphRow s) (stepPositions m (of_int st)))
                      \<and> efficiencyComparisonData s =
                          Some (map (efficiencyRow s) (stepPositions m (of_int st))))
                 \<and> stepPositions m (of_int st) \<noteq> [] \<and> hd (stepPositions m (of_int st)) = Fin 0
                 \<and> (\<forall>d\<in>set (stepPositions m (of_int st)). js_le (Fin 0) d \<and> js_le d (Fin m))))
         \<and> (n \<in> \<int> \<and> 1 \<le> n \<and> n \<le> 2 ^ 50 \<longrightarrow>
              maxDistanceOf s = Fin (2 * n)
              \<and> stepOf (maxDistanceOf s) = Fin (of_int \<lceil>2 * n / 20\<rceil>)
              \<and> vehicleComparisonData s = Some (map (vehicleRow s) (samplePositions n))
              \<and> (truthy (efficiency s) \<and> truthy (currentFuelPrice s) \<and> truthy (pastFuelPrice s) \<longrightarrow>
                   graphData s = Some (map (graphRow s) (samplePositions n))
                   \<and> efficiencyComparisonData s = Some (map (efficiencyRow s) (samplePositions n)))
              \<and> samplePositions n \<noteq> [] \<and> hd (samplePositions n) = Fin 0
              \<and> (\<forall>d\<in>set (samplePositions n). js_le (Fin 0) d \<and> js_le d (Fin (2 * n))))"
proof (intro conjI impI)
  assume z: "n = 0 \<or> n \<le> - (1 / 2 ^ 1074)"
  have l: "sampleLoop row (maxDistanceOf s) (stepOf (maxDistanceOf s)) (Fin 0) [] = Some []"
    if "truthy (distance s)" for row :: "jsnum \<Rightarrow> 'b"
  proof -
    from that assms(2) have "n \<noteq> 0" by (auto simp: js_truthy_def)
    with z have "n \<le> - (1 / 2 ^ 1074)" by simp
    then show ?thesis by (rule sampling_negative[OF assms(2)])
  qed
  show "graphData s = Some []"
    using l[of "graphRow s"] by (auto simp: graphData_def Let_def)
  show "vehicleComparisonData s = Some []"
    using l[of "vehicleRow s"] by (auto simp: vehicleComparisonData_def Let_def)
  show "efficiencyComparisonData s = Some []"
    using l[of "efficiencyRow s"] by (auto simp: efficiencyComparisonData_def Let_def)
next
  assume p: "1 / 2 ^ 1071 \<le> n \<and> n \<le> 2 ^ 50"
  have "(0::rat) < 1 / 2 ^ 1071" by simp
  with p have "n \<noteq> 0" by linarith
  then have t: "truthy (distance s)" using assms(2) by (simp add: js_truthy_def)
  from maxDistanceOf_positive[OF assms(2) conjunct1[OF p] conjunct2[OF p]] obtain m where
    m: "maxDistanceOf s = Fin m" "\<bar>m - 2 * n\<bar> \<le> n / 2 ^ 52 + 1 / 2 ^ 1075"
       "20 / 2 ^ 1075 < m" "m \<le> 2 ^ 52"
    by blast
  from stepOf_positive[OF m(3,4)] obtain st :: int where
    st: "stepOf (Fin m) = Fin (of_int st)" "1 \<le> st"
        "m / 20 - 1 / 10 < of_int st" "of_int st < m / 20 + 11 / 10" "m + of_int st < 2 ^ 53"
    by blast
  have "(0::rat) < 20 / 2 ^ 1075" by simp
  with m(3) have m0: "0 \<le> m" by linarith
  have s0: "(0::rat) < of_int st" using st(2) by simp
  have fin: "sampleLoop row (maxDistanceOf s) (stepOf (maxDistanceOf s)) (Fin 0) [] =
               Some (map row (stepPositions m (of_int st)))" for row :: "jsnum \<Rightarrow> 'b"
    unfolding m(1) st(1) by (rule sampleLoop_positions[OF st(2) m0 st(5)])
  have v: "vehicleComparisonData s = Some (map (vehicleRow s) (stepPositions m (of_int st)))"
    using vehicleComparisonData_loop[OF assms(1) t] fin by simp
  have g: "truthy (efficiency s) \<and> truthy (currentFuelPrice s) \<and> truthy (pastFuelPrice s) \<longrightarrow>
             graphData s = Some (map (graphRow s) (stepPositions m (of_int st)))
             \<and> efficiencyComparisonData s = Some (map (efficiencyRow s) (stepPositions m (of_int st)))"
  proof
    assume "truthy (efficiency s) \<and> truthy (currentFuelPrice s) \<and> truthy (pastFuelPrice s)"
    then have i: "truthy (efficiency s)" "truthy (currentFuelPrice s)" "truthy (pastFuelPrice s)"
      by simp_all
    from graphData_loop[OF assms(1) t i] efficiencyComparisonData_loop[OF assms(1) t i]
      fin[of "graphRow s"] fin[of "efficiencyRow s"]
    show "graphData s = Some (map (graphRow s) (stepPositions m (of_int st)))
             \<and> efficiencyComparisonData s = Some (map (efficiencyRow s) (stepPositions m (of_int st)))"
      by simp
  qed
  have sm: "stepOf (maxDistanceOf s) = Fin (of_int st)" unfolding m(1) by (rule st(1))
  note pf = stepPositions_facts[OF s0 m0]
  from m(1,2) sm st(2,3,4) v g pf
  show "\<exists>m st. maxDistanceOf s = Fin m \<and> \<bar>m - 2 * n\<bar> \<le> n / 2 ^ 52 + 1 / 2 ^ 1075
           \<and> stepOf (maxDistanceOf s) = Fin (of_int st) \<and> 1 \<le> st
           \<and> m / 20 - 1 / 10 < of_int st \<and> of_int st < m / 20 + 11 / 10
           \<and> vehicleComparisonData s = Some (map (vehicleRow s) (stepPositions m (of_int st)))
           \<and> (truthy (efficiency s) \<and> truthy (currentFuelPrice s) \<and> truthy (pastFuelPrice s) \<longrightarrow>
                graphData s = Some (map (graphRow s) (stepPositions m (of_int st)))
                \<and> efficiencyComparisonData s =
                    Some (map (efficiencyRow s) (stepPositions m (of_int st))))
           \<and> stepPositions m (of_int st) \<noteq> [] \<and> hd (stepPositions m (of_int st)) = Fin 0
           \<and> (\<forall>d\<in>set (stepPositions m (of_int st)). js_le (Fin 0) d \<and> js_le d (Fin m))"
    by blast
next
  assume w: "n \<in> \<int> \<and> 1 \<le> n \<and> n \<le> 2 ^ 50"
  then have z: "n \<in> \<int>" and lo: "1 \<le> n" and hi: "n \<le> 2 ^ 50" by simp_all
  have t: "truthy (distance s)" using assms(2) lo by (auto simp: js_truthy_def)
  note fin = sampling_whole[OF assms(2) z lo hi]
  note md = maxDistanceOf_whole[OF assms(2) z lo hi]
  show "maxDistanceOf s = Fin (2 * n)" by (rule md)
  show "stepOf (maxDistanceOf s) = Fin (of_int \<lceil>2 * n / 20\<rceil>)"
    unfolding md by (rule stepOf_whole[OF z lo hi])
  show "vehicleComparisonData s = Some (map (vehicleRow s) (samplePositions n))"
    using vehicleComparisonData_loop[OF assms(1) t] fin by simp
  have "0 < 2 * n / 20" using lo by simp
  then have "0 < \<lceil>2 * n / 20\<rceil>" by (simp only: zero_less_ceiling)
  then have s0: "(0::rat) < of_int \<lceil>2 * n / 20\<rceil>" by simp
  have m0: "0 \<le> 2 * n" using lo by simp
  note pf = stepPositions_facts[OF s0 m0, folded samplePositions_stepPositions]
  show "samplePositions n \<noteq> []" "hd (samplePositions n) = Fin 0"
    "\<forall>d\<in>set (samplePositions n). js_le (Fin 0) d \<and> js_le d (Fin (2 * n))"
    by (rule pf)+
  assume g: "truthy (efficiency s) \<and> truthy (currentFuelPrice s) \<and> truthy (pastFuelPrice s)"
  show "graphData s = Some (map (graphRow s) (samplePositions n))"
    using graphData_loop[OF assms(1) t] g fin by simp
  show "efficiencyComparisonData s = Some (map (efficiencyRow s) (samplePositions n))"
    using efficiencyComparisonData_loop[OF assms(1) t] g fin by simp
qed

lemma half_km_sampling:
  "maxDistanceOf half_km_state = Fin 1" "stepOf (Fin 1) = Fin 1"
  "stepPositions 1 1 = [Fin 0, Fin 1]"
  by (simp_all add: maxDistanceOf_def half_km_state_facts stepOf_def stepPositions_def
      js_fin_eval upt_rec)

theorem chart_sampling_witness:
  "computedBreakdown (dispatch Submit initial_state) \<noteq> None
   \<and> distance (dispatch Submit initial_state) = Num (Fin 15000)
   \<and> maxDistanceOf (dispatch Submit initial_state) = Fin 30000
   \<and> stepOf (maxDistanceOf (dispatch Submit initial_state)) = Fin 1500
   \<and> graphData (dispatch Submit initial_state) =
        Some (map (graphRow (dispatch Submit initial_state)) (samplePositions 15000))
   \<and> vehicleComparisonData (dispatch Submit initial_state) =
        Some (map (vehicleRow (dispatch Submit initial_state)) (samplePositions 15000))
   \<and> efficiencyComparisonData (dispatch Submit initial_state) =
        Some (map (efficiencyRow (dispatch Submit initial_state)) (samplePositions 15000))
   \<and> length (samplePositions 15000) = 21
   \<and> hd (samplePositions 15000) = Fin 0
   \<and> samplePositions 15000 ! 1 = Fin 1500
   \<and> last (samplePositions 15000) = Fin 30000
   \<and> computedBreakdown zero_distance_state \<noteq> None
   \<and> distance zero_distance_state = Num (Fin 0)
   \<and> graphData zero_distance_state = Some []
   \<and> vehicleComparisonData zero_distance_state = Some []
   \<and> efficiencyComparisonData zero_distance_state = Some []
   \<and> computedBreakdown edited_invalid_state \<noteq> None
   \<and> distance edited_invalid_state = Num (Fin (- 1))
   \<and> graphData edited_invalid_state = Some []
   \<and> vehicleComparisonData edited_invalid_state = Some []
   \<and> efficiencyComparisonData edited_invalid_state = Some []
   \<and> computedBreakdown half_km_state \<noteq> None
   \<and> distance half_km_state = Num (Fin (1 / 2))
   \<and> maxDistanceOf half_km_state = Fin 1
   \<and> stepOf (maxDistanceOf half_km_state) = Fin 1
   \<and> graphData half_km_state = Some (map (graphRow half_km_state) [Fin 0, Fin 1])
   \<and> vehicleComparisonData half_km_state = Some (map (vehicleRow half_km_state) [Fin 0, Fin 1])
   \<and> efficiencyComparisonData half_km_state =
        Some (map (efficiencyRow half_km_state) [Fin 0, Fin 1])"
proof -
  have t: "truthy (efficiency (dispatch Submit initial_state))"
    "truthy (currentFuelPrice (dispatch Submit initial_state))"
    "truthy (pastFuelPrice (dispatch Submit initial_state))"
    unfolding submitted_initial by (simp_all add: js_truthy_def)
  have l: "length (samplePositions 15000) = 21" "samplePositions 15000 ! 1 = Fin 1500"
    "last (samplePositions 15000) = Fin 30000"
    unfolding samplePositions_15000 by (simp_all add: last_map)
  have c: "Fin (2 * 15000) = Fin 30000" "Fin (of_int \<lceil>2 * 15000 / 20 :: rat\<rceil>) = Fin 1500"
    by simp_all
  have w: "(15000 :: rat) \<in> \<int> \<and> 1 \<le> (15000 :: rat) \<and> (15000 :: rat) \<le> 2 ^ 50" by simp
  from chart_sampling[OF submitted_initial(1) submitted_initial(2)] w t
  have "maxDistanceOf (dispatch Submit initial_state) = Fin (2 * 15000)
     \<and> stepOf (maxDistanceOf (dispatch Submit initial_state)) = Fin (of_int \<lceil>2 * 15000 / 20 :: rat\<rceil>)
     \<and> graphData (dispatch Submit initial_state) =
          Some (map (graphRow (dispatch Submit initial_state)) (samplePositions 15000))
     \<and> vehicleComparisonData (dispatch Submit initial_state) =
          Some (map (vehicleRow (dispatch Submit initial_state)) (samplePositions 15000))
     \<and> efficiencyComparisonData (dispatch Submit initial_state) =
          Some (map (efficiencyRow (dispatch Submit initial_state)) (samplePositions 15000))
     \<and> hd (samplePositions 15000) = Fin 0"
    by blast
  then have a: "maxDistanceOf (dispatch Submit initial_state) = Fin 30000
     \<and> stepOf (maxDistanceOf (dispatch Submit initial_state)) = Fin 1500
     \<and> graphData (dispatch Submit initial_state) =
          Some (map (graphRow (dispatch Submit initial_state)) (samplePositions 15000))
     \<and> vehicleComparisonData (dispatch Submit initial_state) =
          Some (map (vehicleRow (dispatch Submit initial_state)) (samplePositions 15000))
     \<and> efficiencyComparisonData (dispatch Submit initial_state) =
          Some (map (efficiencyRow (dispatch Submit initial_state)) (samplePositions 15000))
     \<and> hd (samplePositions 15000) = Fin 0"
    unfolding c .
  have z: "graphData zero_distance_state = Some [] \<and> vehicleComparisonData zero_distance_state = Some []
     \<and> efficiencyComparisonData zero_distance_state = Some []"
    using chart_sampling[OF zero_distance_state_facts] by blast
  have "(- 1 :: rat) \<le> - (1 / 2 ^ 1074)" by simp
  with chart_sampling[OF edited_invalid_state_facts]
  have n: "graphData edited_invalid_state = Some [] \<and> vehicleComparisonData edited_invalid_state = Some []
     \<and> efficiencyComparisonData edited_invalid_state = Some []"
    by blast
  have th: "truthy (efficiency half_km_state)" "truthy (currentFuelPrice half_km_state)"
    "truthy (pastFuelPrice half_km_state)"
    unfolding half_km_state_facts by (simp_all add: js_truthy_def)
  have r: "1 / 2 ^ 1071 \<le> (1 / 2 :: rat) \<and> (1 / 2 :: rat) \<le> 2 ^ 50" by simp
  from chart_sampling[OF half_km_state_facts(1,2)] r obtain m st where
    h: "maxDistanceOf half_km_state = Fin m" "stepOf (maxDistanceOf half_km_state) = Fin (of_int st)"
       "vehicleComparisonData half_km_state =
          Some (map (vehicleRow half_km_state) (stepPositions m (of_int st)))"
       "truthy (efficiency half_km_state) \<and> truthy (currentFuelPrice half_km_state)
          \<and> truthy (pastFuelPrice half_km_state) \<longrightarrow>
        graphData half_km_state = Some (map (graphRow half_km_state) (stepPositions m (of_int st)))
        \<and> efficiencyComparisonData half_km_state =
            Some (map (efficiencyRow half_km_state) (stepPositions m (of_int st)))"
    by blast
  from h(1) have m: "m = 1" unfolding half_km_sampling(1) by simp
  from h(2) have st: "(of_int st :: rat) = 1" unfolding half_km_sampling(1,2) by simp
  have k: "stepOf (maxDistanceOf half_km_state) = Fin 1
     \<and> graphData half_km_state = Some (map (graphRow half_km_state) [Fin 0, Fin 1])
     \<and> vehicleComparisonData half_km_state = Some (map (vehicleRow half_km_state) [Fin 0, Fin 1])
     \<and> efficiencyComparisonData half_km_state =
          Some (map (efficiencyRow half_km_state) [Fin 0, Fin 1])"
    using h(2,3,4) th unfolding m st half_km_sampling(3) by simp
  show ?thesis
    using submitted_initial(1,2) a l zero_distance_state_facts z edited_invalid_state_facts n
      half_km_state_facts(1,2) half_km_sampling(1) k
    by blast
qed

text \<open>
  Claim C5 as stated fails: a calculation with distance 0 stores a breakdown, the maximal
  distance is 0, and each generator returns the empty sequence rather than the one row
  at distance 0.
\<close>

theorem zero_distance_gives_no_samples:
  "computedBreakdown zero_distance_state \<noteq> None
   \<and> distance zero_distance_state = Num (Fin 0)
   \<and> maxDistanceOf zero_distance_state = Fin 0
   \<and> graphData zero_distance_state = Some []
   \<and> graphData zero_distance_state \<noteq> Some [graphRow zero_distance_state (Fin 0)]
   \<and> vehicleComparisonData zero_distance_state = Some []
   \<and> vehicleComparisonData zero_distance_state \<noteq> Some [vehicleRow zero_distance_state (Fin 0)]
   \<and> efficiencyComparisonData zero_distance_state = Some []
   \<and> efficiencyComparisonData zero_distance_state \<noteq> Some [efficiencyRow zero_distance_state (Fin 0)]"
proof -
  have f: "\<not> truthy (distance zero_distance_state)"
    unfolding zero_distance_state_facts by (simp add: js_truthy_def)
  have m: "maxDistanceOf zero_distance_state = Fin 0"
    unfolding maxDistanceOf_def zero_distance_state_facts by (simp add: js_fin_0)
  show ?thesis
    using f m zero_distance_state_facts
    by (simp add: graphData_guard vehicleComparisonData_guard efficiencyComparisonData_guard)
qed

subsection \<open>The guards\<close>

text \<open>
  Claim C7, as amended.  The distance chart and the efficiency chart are empty as soon as
  the breakdown is absent or one of the four inputs is unset, zero or NaN; the vehicle
  comparison is empty as soon as the breakdown is absent or the distance is unset, zero
  or NaN, whatever the other three inputs are.  A generator that returns rows has passed
  its own guard.
\<close>

theorem chart_guards:
  "(computedBreakdown s = None \<or> \<not> truthy (distance s) \<or> \<not> truthy (efficiency s)
      \<or> \<not> truthy (currentFuelPrice s) \<or> \<not> truthy (pastFuelPrice s)
    \<longrightarrow> graphData s = Some [] \<and> efficiencyComparisonData s = Some [])
   \<and> (computedBreakdown s = None \<or> \<not> truthy (distance s) \<longrightarrow> vehicleComparisonData s = Some [])
   \<and> (graphData s \<noteq> Some [] \<or> efficiencyComparisonData s \<noteq> Some []
      \<longrightarrow> computedBreakdown s \<noteq> None \<and> truthy (distance s) \<and> truthy (efficiency s)
          \<and> truthy (currentFuelPrice s) \<and> truthy (pastFuelPrice s))
   \<and> (vehicleComparisonData s \<noteq> Some [] \<longrightarrow> computedBreakdown s \<noteq> None \<and> truthy (distance s))"
  by (auto simp: graphData_def efficiencyComparisonData_def vehicleComparisonData_def)

lemma unset_efficiency_state_facts:
  "computedBreakdown unset_efficiency_state \<noteq> None"
  "distance unset_efficiency_state = Num (Fin 15000)"
  "efficiency unset_efficiency_state = EmptyStr"
  unfolding unset_efficiency_state_def using submitted_initial by simp_all

text \<open>
  Claim C7 as stated fails for the vehicle comparison: with a breakdown present,
  distance 15000 and the efficiency box emptied, it returns 21 rows.
\<close>

theorem vehicle_chart_without_efficiency:
  "computedBreakdown unset_efficiency_state \<noteq> None
   \<and> efficiency unset_efficiency_state = EmptyStr
   \<and> \<not> truthy (efficiency unset_efficiency_state)
   \<and> vehicleComparisonData unset_efficiency_state = Some (map (vehicleRow unset_efficiency_state) (samplePositions 15000))
   \<and> length (samplePositions 15000) = 21
   \<and> vehicleComparisonData unset_efficiency_state \<noteq> Some []"
proof -
  have t: "truthy (distance unset_efficiency_state)" unfolding unset_efficiency_state_facts by (simp add: js_truthy_def)
  have v: "vehicleComparisonData unset_efficiency_state = Some (map (vehicleRow unset_efficiency_state) (samplePositions 15000))"
    unfolding vehicleComparisonData_loop[OF unset_efficiency_state_facts(1) t]
    by (rule sampling_whole[OF unset_efficiency_state_facts(2)]) simp_all
  have l: "length (samplePositions 15000) = 21" unfolding samplePositions_15000 by simp
  then have "samplePositions 15000 \<noteq> []" by auto
  with v l show ?thesis by (simp add: unset_efficiency_state_facts)
qed

theorem chart_guards_witness:
  "\<not> truthy (efficiency unset_efficiency_state)
   \<and> graphData unset_efficiency_state = Some [] \<and> efficiencyComparisonData unset_efficiency_state = Some []
   \<and> computedBreakdown initial_state = None
   \<and> vehicleComparisonData initial_state = Some []
   \<and> graphData (dispatch Submit initial_state) \<noteq> Some []
   \<and> vehicleComparisonData (dispatch Submit initial_state) \<noteq> Some []
   \<and> computedBreakdown (dispatch Submit initial_state) \<noteq> None
   \<and> truthy (distance (dispatch Submit initial_state))
   \<and> truthy (efficiency (dispatch Submit initial_state))
   \<and> truthy (currentFuelPrice (dispatch Submit initial_state))
   \<and> truthy (pastFuelPrice (dispatch Submit initial_state))"
proof -
  have e: "\<not> truthy (efficiency unset_efficiency_state)" unfolding unset_efficiency_state_facts by simp
  have n: "computedBreakdown initial_state = None" by (simp add: initial_state_def)
  have t: "truthy (distance (dispatch Submit initial_state))"
    "truthy (efficiency (dispatch Submit initial_state))"
    "truthy (currentFuelPrice (dispatch Submit initial_state))"
    "truthy (pastFuelPrice (dispatch Submit initial_state))"
    unfolding submitted_initial by (simp_all add: js_truthy_def)
  have l: "map f (samplePositions 15000) \<noteq> []" for f :: "jsnum \<Rightarrow> 'b"
    using samplePositions_hd[of 15000] by simp
  have fin: "sampleLoop row (maxDistanceOf (dispatch Submit initial_state))
               (stepOf (maxDistanceOf (dispatch Submit initial_state))) (Fin 0) [] =
             Some (map row (samplePositions 15000))" for row :: "jsnum \<Rightarrow> 'b"
    by (rule sampling_whole[OF submitted_initial(2)]) simp_all
  have "graphData (dispatch Submit initial_state) =
          Some (map (graphRow (dispatch Submit initial_state)) (samplePositions 15000))"
    using graphData_loop[OF submitted_initial(1) t] fin by (simp only:)
  then have g: "graphData (dispatch Submit initial_state) \<noteq> Some []"
    using l by (simp only: option.inject not_False_eq_True)
  have "vehicleComparisonData (dispatch Submit initial_state) =
          Some (map (vehicleRow (dispatch Submit initial_state)) (samplePositions 15000))"
    using vehicleComparisonData_loop[OF submitted_initial(1) t(1)] fin by (simp only:)
  then have v: "vehicleComparisonData (dispatch Submit initial_state) \<noteq> Some []"
    using l by (simp only: option.inject not_False_eq_True)
  show ?thesis
    using chart_guards[of unset_efficiency_state] chart_guards[of initial_state]
      chart_guards[of "dispatch Submit initial_state"] e n g v
    by blast
qed

subsection \<open>The efficiency chart\<close>

text \<open>
  \<^verbatim>\<open>Math.max(0, e - 1)\<close> is \<open>e - 1\<close> from \<open>e = 1\<close> on and \<open>0\<close> below: a rounded
  difference has the sign of the exact difference.
\<close>

lemma clamped_efficiency:
  assumes "e \<noteq> NaN"
  shows "js_max (Fin 0) (js_sub e (Fin 1)) = (if js_le (Fin 1) e then js_sub e (Fin 1) else Fin 0)"
proof (cases e)
  case (Fin x)
  have s: "js_sub e (Fin 1) = js_fin (x - 1)" unfolding Fin by (simp add: js_sub_def)
  from js_fin_cases[of "x - 1"] show ?thesis
  proof (elim disjE conjE exE)
    assume "js_fin (x - 1) = PInf" "DBL_OVF \<le> x - 1"
    then show ?thesis unfolding s using DBL_OVF_pos by (simp add: js_max_def Fin)
  next
    assume "js_fin (x - 1) = NInf" "x - 1 \<le> - DBL_OVF"
    then show ?thesis unfolding s using DBL_OVF_pos by (simp add: js_max_def Fin)
  next
    fix y assume y: "js_fin (x - 1) = Fin y" "0 \<le> x - 1 \<longrightarrow> 0 \<le> y" "x - 1 \<le> 0 \<longrightarrow> y \<le> 0"
    show ?thesis
    proof (cases "1 \<le> x")
      case True
      with y(2) have "0 \<le> y" by simp
      then show ?thesis unfolding s y(1) using True by (auto simp: js_max_def Fin)
    next
      case False
      with y(3) have "y \<le> 0" by simp
      then show ?thesis unfolding s y(1) using False by (simp add: js_max_def Fin)
    qed
  qed
next
  case PInf
  then show ?thesis by (simp add: js_sub_def js_max_def)
next
  case NInf
  then show ?thesis by (simp add: js_sub_def js_max_def)
next
  case NaN
  with assms show ?thesis by simp
qed

lemma efficiencyRow_series:
  assumes "efficiency s = Num e"
  shows "ep_distance (efficiencyRow s d) = d"
    and "ep_oldSystem (efficiencyRow s d) = oldSystemCostAt s e d"
    and "ep_newSystem (efficiencyRow s d) = newSystemCostAt s e d"
    and "ep_lessEfficient (efficiencyRow s d) = newSystemCostAt s (js_add e (Fin 1)) d"
    and "e \<noteq> NaN \<Longrightarrow> ep_moreEfficient (efficiencyRow s d) =
           newSystemCostAt s (if js_le (Fin 1) e then js_sub e (Fin 1) else Fin 0) d"
proof -
  show "ep_distance (efficiencyRow s d) = d"
    "ep_oldSystem (efficiencyRow s d) = oldSystemCostAt s e d"
    "ep_newSystem (efficiencyRow s d) = newSystemCostAt s e d"
    "ep_lessEfficient (efficiencyRow s d) = newSystemCostAt s (js_add e (Fin 1)) d"
    using assms by (simp_all add: efficiencyRow_def oldSystemCostAt_def newSystemCostAt_def Let_def)
  assume "e \<noteq> NaN"
  from clamped_efficiency[OF this]
  show "ep_moreEfficient (efficiencyRow s d) =
           newSystemCostAt s (if js_le (Fin 1) e then js_sub e (Fin 1) else Fin 0) d"
    using assms by (simp add: efficiencyRow_def newSystemCostAt_def Let_def)
qed

lemma efficiencyComparisonData_rows:
  assumes "efficiencyComparisonData s = Some pts"
  shows "\<exists>ds. pts = map (efficiencyRow s) ds"
proof (cases "computedBreakdown s = None \<or> \<not> truthy (distance s) \<or> \<not> truthy (efficiency s)
     \<or> \<not> truthy (currentFuelPrice s) \<or> \<not> truthy (pastFuelPrice s)")
  case True
  then have "efficiencyComparisonData s = Some []" by (rule efficiencyComparisonData_guard)
  with assms have "pts = map (efficiencyRow s) []" by simp
  then show ?thesis by blast
next
  case False
  then have "efficiencyComparisonData s =
      sampleLoop (efficiencyRow s) (maxDistanceOf s) (stepOf (maxDistanceOf s)) (Fin 0) []"
    by (intro efficiencyComparisonData_loop) simp_all
  with assms have "sampleLoop (efficiencyRow s) (maxDistanceOf s) (stepOf (maxDistanceOf s)) (Fin 0) [] = Some pts"
    by simp
  from sampleLoop_rows[OF this] show ?thesis by simp
qed

text \<open>
  Claim C8.  With base efficiency \<open>e\<close>, every row of the efficiency chart holds, for its
  distance, the old-system cost at \<open>e\<close>, the new-system cost at \<open>e\<close>, the new-system
  cost at \<open>e + 1\<close> and the new-system cost at \<open>e - 1\<close> when \<open>e\<close> is at least 1 and at
  \<open>0\<close> when \<open>e\<close> is below 1.  With a breakdown, a distance between \<open>2^-1071\<close> and
  \<open>2^50\<close> and inputs other than zero, the chart is returned and has one such row per
  sampled distance.  For \<open>e = 0.5\<close> the difference \<open>e - 1\<close> is \<open>-0.5\<close> and the last
  series is computed at efficiency \<open>0\<close>; the row is computed all the same.
\<close>

theorem efficiency_series:
  assumes "efficiency s = Num e"
  shows "(efficiencyComparisonData s = Some pts \<longrightarrow>
            (\<forall>p\<in>set pts.
               ep_oldSystem p = oldSystemCostAt s e (ep_distance p)
               \<and> ep_newSystem p = newSystemCostAt s e (ep_distance p)
               \<and> ep_lessEfficient p = newSystemCostAt s (js_add e (Fin 1)) (ep_distance p)
               \<and> ep_moreEfficient p =
                   newSystemCostAt s (if js_le (Fin 1) e then js_sub e (Fin 1) else Fin 0)
                     (ep_distance p)))
         \<and> (computedBreakdown s \<noteq> None \<and> distance s = Num (Fin n)
              \<and> 1 / 2 ^ 1071 \<le> n \<and> n \<le> 2 ^ 50
              \<and> js_truthy e \<and> truthy (currentFuelPrice s) \<and> truthy (pastFuelPrice s) \<longrightarrow>
              (\<exists>rows m st. efficiencyComparisonData s = Some rows \<and> rows \<noteq> []
                 \<and> maxDistanceOf s = Fin m \<and> stepOf (maxDistanceOf s) = Fin (of_int st)
                 \<and> map ep_distance rows = stepPositions m (of_int st)))
         \<and> (e = Fin (1 / 2) \<longrightarrow>
              js_sub e (Fin 1) = Fin (- 1 / 2)
              \<and> ep_moreEfficient (efficiencyRow s d) = newSystemCostAt s (Fin 0) d)"
proof (intro conjI impI)
  assume r: "efficiencyComparisonData s = Some pts"
  show "\<forall>p\<in>set pts.
          ep_oldSystem p = oldSystemCostAt s e (ep_distance p)
          \<and> ep_newSystem p = newSystemCostAt s e (ep_distance p)
          \<and> ep_lessEfficient p = newSystemCostAt s (js_add e (Fin 1)) (ep_distance p)
          \<and> ep_moreEfficient p =
              newSystemCostAt s (if js_le (Fin 1) e then js_sub e (Fin 1) else Fin 0)
                (ep_distance p)"
  proof (cases "e = NaN")
    case True
    then have "\<not> truthy (efficiency s)" using assms by (simp add: js_truthy_def)
    then have "efficiencyComparisonData s = Some []" by (simp add: efficiencyComparisonData_guard)
    with r have "pts = []" by simp
    then show ?thesis by simp
  next
    case False
    from efficiencyComparisonData_rows[OF r] obtain ds where
      pts: "pts = map (efficiencyRow s) ds" by blast
    show ?thesis
      unfolding pts
      by (auto simp: efficiencyRow_series(1-4)[OF assms] efficiencyRow_series(5)[OF assms False])
  qed
next
  assume a: "computedBreakdown s \<noteq> None \<and> distance s = Num (Fin n)
      \<and> 1 / 2 ^ 1071 \<le> n \<and> n \<le> 2 ^ 50
      \<and> js_truthy e \<and> truthy (currentFuelPrice s) \<and> truthy (pastFuelPrice s)"
  then have b: "computedBreakdown s \<noteq> None" and d: "distance s = Num (Fin n)"
    and lo: "1 / 2 ^ 1071 \<le> n" and hi: "n \<le> 2 ^ 50"
    and te: "truthy (efficiency s)" and tc: "truthy (currentFuelPrice s)"
    and tp: "truthy (pastFuelPrice s)"
    using assms by simp_all
  have "(0::rat) < 1 / 2 ^ 1071" by simp
  with lo have "n \<noteq> 0" by linarith
  then have td: "truthy (distance s)" using d by (simp add: js_truthy_def)
  from maxDistanceOf_positive[OF d lo hi] obtain m where
    m: "maxDistanceOf s = Fin m" "20 / 2 ^ 1075 < m" "m \<le> 2 ^ 52"
    by blast
  from stepOf_positive[OF m(2,3)] obtain st :: int where
    st: "stepOf (Fin m) = Fin (of_int st)" "1 \<le> st" "m + of_int st < 2 ^ 53"
    by blast
  have "(0::rat) < 20 / 2 ^ 1075" by simp
  with m(2) have m0: "0 \<le> m" by linarith
  have s0: "(0::rat) < of_int st" using st(2) by simp
  have "efficiencyComparisonData s =
          sampleLoop (efficiencyRow s) (maxDistanceOf s) (stepOf (maxDistanceOf s)) (Fin 0) []"
    by (rule efficiencyComparisonData_loop[OF b td te tc tp])
  also have "\<dots> = Some (map (efficiencyRow s) (stepPositions m (of_int st)))"
    unfolding m(1) st(1) by (rule sampleLoop_positions[OF st(2) m0 st(3)])
  finally have r: "efficiencyComparisonData s =
      Some (map (efficiencyRow s) (stepPositions m (of_int st)))" .
  have dd: "map ep_distance (map (efficiencyRow s) (stepPositions m (of_int st))) =
      stepPositions m (of_int st)"
    by (simp add: comp_def efficiencyRow_series(1)[OF assms])
  have ne: "map (efficiencyRow s) (stepPositions m (of_int st)) \<noteq> []"
    using stepPositions_facts(1)[OF s0 m0] by simp
  have sm: "stepOf (maxDistanceOf s) = Fin (of_int st)" unfolding m(1) by (rule st(1))
  from r ne m(1) sm dd
  show "\<exists>rows m st. efficiencyComparisonData s = Some rows \<and> rows \<noteq> []
          \<and> maxDistanceOf s = Fin m \<and> stepOf (maxDistanceOf s) = Fin (of_int st)
          \<and> map ep_distance rows = stepPositions m (of_int st)"
    by blast
next
  assume h: "e = Fin (1 / 2)"
  show "js_sub e (Fin 1) = Fin (- 1 / 2)"
    unfolding h by (simp add: js_sub_def js_fin_eval)
  have "e \<noteq> NaN" using h by simp
  from efficiencyRow_series(5)[OF assms this, of d]
  show "ep_moreEfficient (efficiencyRow s d) = newSystemCostAt s (Fin 0) d"
    unfolding h by simp
qed

lemma half_efficiency_state_facts:
  "computedBreakdown half_efficiency_state \<noteq> None"
  "distance half_efficiency_state = Num (Fin 2)"
  "efficiency half_efficiency_state = Num (Fin (1 / 2))"
  "currentFuelPrice half_efficiency_state = Num (Fin 185)"
  "pastFuelPrice half_efficiency_state = Num (Fin 300)"
proof -
  let ?s = "dispatch (ChangeEfficiency (Num (Fin (1 / 2))))
          (dispatch (ChangeDistance (Num (Fin 2))) initial_state)"
  have v: "fst (validateInputs ?s)"
    by (simp add: validateInputs_fst validateInputs_errors initial_state_def distanceRule_def
        efficiencyRule_def priceRule_def js_ge_def js_gt_def)
  have h: "half_efficiency_state = handleCalculate ?s" by (simp add: half_efficiency_state_def)
  show "computedBreakdown half_efficiency_state \<noteq> None"
    unfolding h handleCalculate_valid[OF v] by simp
  show "distance half_efficiency_state = Num (Fin 2)" "efficiency half_efficiency_state = Num (Fin (1 / 2))"
    "currentFuelPrice half_efficiency_state = Num (Fin 185)" "pastFuelPrice half_efficiency_state = Num (Fin 300)"
    unfolding h handleCalculate_valid[OF v]
    by (simp_all add: validateInputs_def Let_def initial_state_def)
qed

lemma samplePositions_2:
  "samplePositions 2 = [Fin 0, Fin 1, Fin 2, Fin 3, Fin 4]"
  unfolding samplePositions_def Let_def by (simp add: rat_floor_simps upt_rec)

lemma half_efficiency_sampling:
  "maxDistanceOf half_efficiency_state = Fin 4" "stepOf (Fin 4) = Fin 1"
  "stepPositions 4 1 = [Fin 0, Fin 1, Fin 2, Fin 3, Fin 4]"
  by (simp_all add: maxDistanceOf_def half_efficiency_state_facts stepOf_def stepPositions_def
      js_fin_eval upt_rec)

theorem efficiency_series_witness:
  "efficiency half_efficiency_state = Num (Fin (1 / 2))
   \<and> computedBreakdown half_efficiency_state \<noteq> None
   \<and> distance half_efficiency_state = Num (Fin 2)
   \<and> efficiencyComparisonData half_efficiency_state =
       Some (map (efficiencyRow half_efficiency_state) [Fin 0, Fin 1, Fin 2, Fin 3, Fin 4])
   \<and> map ep_distance (map (efficiencyRow half_efficiency_state) [Fin 0, Fin 1, Fin 2, Fin 3, Fin 4]) =
       [Fin 0, Fin 1, Fin 2, Fin 3, Fin 4]
   \<and> js_sub (Fin (1 / 2)) (Fin 1) = Fin (- 1 / 2)
   \<and> map ep_moreEfficient (map (efficiencyRow half_efficiency_state) [Fin 0, Fin 1, Fin 2, Fin 3, Fin 4]) =
       [Fin 0, Fin 7, Fin 14, Fin 21, Fin 28]
   \<and> map (newSystemCostAt half_efficiency_state (Fin (- 1 / 2))) [Fin 0, Fin 1, Fin 2, Fin 3, Fin 4] =
       [Fin 0, Fin 6, Fin 12, Fin 18, Fin 24]
   \<and> map ep_lessEfficient (map (efficiencyRow half_efficiency_state) [Fin 0, Fin 1, Fin 2, Fin 3, Fin 4]) =
       [Fin 0, Fin 10, Fin 19, Fin 29, Fin 39]
   \<and> map ep_newSystem (map (efficiencyRow half_efficiency_state) [Fin 0, Fin 1, Fin 2, Fin 3, Fin 4]) =
       [Fin 0, Fin 8, Fin 16, Fin 24, Fin 32]
   \<and> map ep_oldSystem (map (efficiencyRow half_efficiency_state) [Fin 0, Fin 1, Fin 2, Fin 3, Fin 4]) =
       [Fin 0, Fin 2, Fin 3, Fin 5, Fin 6]
   \<and> efficiency (dispatch Submit initial_state) = Num (Fin (13 / 2))
   \<and> efficiencyRow (dispatch Submit initial_state) (Fin 1500)
        \<in> set (the (efficiencyComparisonData (dispatch Submit initial_state)))
   \<and> ep_moreEfficient (efficiencyRow (dispatch Submit initial_state) (Fin 1500)) =
       newSystemCostAt (dispatch Submit initial_state) (Fin (11 / 2)) (Fin 1500)
   \<and> newSystemCostAt (dispatch Submit initial_state) (Fin (11 / 2)) (Fin 1500) = Fin 25688"
proof -
  let ?s = half_efficiency_state
  let ?pts = "map (efficiencyRow ?s) [Fin 0, Fin 1, Fin 2, Fin 3, Fin 4]"
  note f = half_efficiency_state_facts
  have t: "truthy (distance ?s)" "truthy (efficiency ?s)"
    "truthy (currentFuelPrice ?s)" "truthy (pastFuelPrice ?s)"
    unfolding f by (simp_all add: js_truthy_def)
  have "sampleLoop (efficiencyRow ?s) (maxDistanceOf ?s) (stepOf (maxDistanceOf ?s)) (Fin 0) [] =
        Some (map (efficiencyRow ?s) (samplePositions 2))"
    by (rule sampling_whole[OF f(2)]) simp_all
  then have r: "efficiencyComparisonData ?s = Some ?pts"
    using efficiencyComparisonData_loop[OF f(1) t] samplePositions_2 by (simp only:)
  note all = efficiency_series[OF f(3), of ?pts 2 "Fin 1"]
  from all r have th: "\<forall>p\<in>set ?pts.
      ep_oldSystem p = oldSystemCostAt ?s (Fin (1 / 2)) (ep_distance p)
      \<and> ep_newSystem p = newSystemCostAt ?s (Fin (1 / 2)) (ep_distance p)
      \<and> ep_lessEfficient p = newSystemCostAt ?s (js_add (Fin (1 / 2)) (Fin 1)) (ep_distance p)
      \<and> ep_moreEfficient p =
          newSystemCostAt ?s (if js_le (Fin 1) (Fin (1 / 2)) then js_sub (Fin (1 / 2)) (Fin 1) else Fin 0)
            (ep_distance p)"
    by blast
  from all have cl: "js_sub (Fin (1 / 2)) (Fin 1) = Fin (- 1 / 2)" by blast
  have g: "computedBreakdown ?s \<noteq> None \<and> distance ?s = Num (Fin 2)
      \<and> 1 / 2 ^ 1071 \<le> (2 :: rat) \<and> (2 :: rat) \<le> 2 ^ 50
      \<and> js_truthy (Fin (1 / 2)) \<and> truthy (currentFuelPrice ?s) \<and> truthy (pastFuelPrice ?s)"
    using f(1,2) t(3,4) by (simp add: js_truthy_def)
  from all g obtain rows m st where
    e: "efficiencyComparisonData ?s = Some rows" "maxDistanceOf ?s = Fin m"
       "stepOf (maxDistanceOf ?s) = Fin (of_int st)"
       "map ep_distance rows = stepPositions m (of_int st)"
    by blast
  from e(1) r have rows: "rows = ?pts" by simp
  from e(2) have m: "m = 4" unfolding half_efficiency_sampling(1) by simp
  from e(3) have st: "(of_int st :: rat) = 1" unfolding half_efficiency_sampling(1,2) by simp
  have dd: "map ep_distance ?pts = [Fin 0, Fin 1, Fin 2, Fin 3, Fin 4]"
    using e(4) unfolding rows m st half_efficiency_sampling(3) .
  note d = efficiencyRow_series(1)[OF f(3)]
  have mo: "map ep_moreEfficient ?pts = [Fin 0, Fin 7, Fin 14, Fin 21, Fin 28]"
    using th by (simp add: d newSystemCostAt_def f js_fin_eval)
  have ng: "map (newSystemCostAt ?s (Fin (- 1 / 2))) [Fin 0, Fin 1, Fin 2, Fin 3, Fin 4] =
       [Fin 0, Fin 6, Fin 12, Fin 18, Fin 24]"
    by (simp add: newSystemCostAt_def f js_fin_eval)
  have l: "map ep_lessEfficient ?pts = [Fin 0, Fin 10, Fin 19, Fin 29, Fin 39]"
    using th by (simp add: d newSystemCostAt_def f js_fin_eval)
  have n: "map ep_newSystem ?pts = [Fin 0, Fin 8, Fin 16, Fin 24, Fin 32]"
    using th by (simp add: d newSystemCostAt_def f js_fin_eval)
  have ol: "map ep_oldSystem ?pts = [Fin 0, Fin 2, Fin 3, Fin 5, Fin 6]"
    using th by (simp add: d oldSystemCostAt_def f js_fin_eval)
  let ?i = "dispatch Submit initial_state"
  note fi = submitted_initial
  have ti: "truthy (distance ?i)" "truthy (efficiency ?i)"
    "truthy (currentFuelPrice ?i)" "truthy (pastFuelPrice ?i)"
    unfolding fi by (simp_all add: js_truthy_def)
  have "sampleLoop (efficiencyRow ?i) (maxDistanceOf ?i) (stepOf (maxDistanceOf ?i)) (Fin 0) [] =
        Some (map (efficiencyRow ?i) (samplePositions 15000))"
    by (rule sampling_whole[OF fi(2)]) simp_all
  then have ri: "efficiencyComparisonData ?i = Some (map (efficiencyRow ?i) (samplePositions 15000))"
    using efficiencyComparisonData_loop[OF fi(1) ti] by (simp only:)
  have "Fin 1500 \<in> set (samplePositions 15000)"
    unfolding samplePositions_15000 set_map set_upt by (rule image_eqI[of _ _ 1]) simp_all
  then have mem: "efficiencyRow ?i (Fin 1500) \<in> set (map (efficiencyRow ?i) (samplePositions 15000))"
    by simp
  from efficiency_series[OF fi(3), of "map (efficiencyRow ?i) (samplePositions 15000)" 2 "Fin 1"] ri mem
  have "ep_moreEfficient (efficiencyRow ?i (Fin 1500)) =
          newSystemCostAt ?i (if js_le (Fin 1) (Fin (13 / 2)) then js_sub (Fin (13 / 2)) (Fin 1) else Fin 0)
            (ep_distance (efficiencyRow ?i (Fin 1500)))"
    by blast
  moreover have "js_sub (Fin (13 / 2)) (Fin 1) = Fin (11 / 2)"
    by (simp add: js_sub_def js_fin_eval)
  ultimately have big: "ep_moreEfficient (efficiencyRow ?i (Fin 1500)) =
      newSystemCostAt ?i (Fin (11 / 2)) (Fin 1500)"
    unfolding efficiencyRow_series(1)[OF fi(3)] by (simp del: dispatch.simps)
  have val: "newSystemCostAt ?i (Fin (11 / 2)) (Fin 1500) = Fin 25688"
    by (simp add: newSystemCostAt_def fi js_fin_eval del: dispatch.simps)
  have mem': "efficiencyRow ?i (Fin 1500) \<in> set (the (efficiencyComparisonData ?i))"
    unfolding ri using mem by simp
  show ?thesis
    using f(1,2,3) r dd cl mo ng l n ol fi(3) mem' big val by blast
qed

subsection \<open>When the loops do not return\<close>

lemma stepOf_PInf: "stepOf PInf = PInf"
  by (simp add: stepOf_def)

lemma sampling_overflow:
  "maxDistanceOf s = PInf
   \<Longrightarrow> sampleLoop row (maxDistanceOf s) (stepOf (maxDistanceOf s)) (Fin 0) [] = None"
  by (simp add: stepOf_PInf sampleLoop_PInf)

lemma huge_overflows: "DBL_OVF \<le> 9 * 10 ^ 307 * 2"
  unfolding DBL_OVF_def by simp

lemma huge_distance_state_facts:
  "computedBreakdown huge_distance_state \<noteq> None"
  "distance huge_distance_state = Num (Fin (9 * 10 ^ 307))"
  "efficiency huge_distance_state = Num (Fin (13 / 2))"
  "currentFuelPrice huge_distance_state = Num (Fin 185)"
  "pastFuelPrice huge_distance_state = Num (Fin 300)"
  unfolding huge_distance_state_def using submitted_initial by simp_all

text \<open>
  Claim C10 fails in the code.  After a calculation on the initial inputs, the distance is
  edited to \<open>9e307\<close>.  Twice that overflows to \<open>+Infinity\<close>, the step is
  \<open>+Infinity\<close> (so at least 1), the loop variable goes from 0 to \<open>+Infinity\<close> and stays
  there, and none of the three loops exits.
\<close>

theorem charts_diverge_on_huge_distance:
  "computedBreakdown huge_distance_state \<noteq> None
   \<and> distance huge_distance_state = Num (Fin (9 * 10 ^ 307))
   \<and> maxDistanceOf huge_distance_state = PInf
   \<and> stepOf (maxDistanceOf huge_distance_state) = PInf
   \<and> js_ge (stepOf (maxDistanceOf huge_distance_state)) (Fin 1)
   \<and> graphData huge_distance_state = None
   \<and> vehicleComparisonData huge_distance_state = None
   \<and> efficiencyComparisonData huge_distance_state = None"
proof -
  have m: "maxDistanceOf huge_distance_state = PInf"
    unfolding maxDistanceOf_def huge_distance_state_facts
    using js_fin_PInf[OF huge_overflows] by simp
  have t: "truthy (distance huge_distance_state)" "truthy (efficiency huge_distance_state)"
    "truthy (currentFuelPrice huge_distance_state)" "truthy (pastFuelPrice huge_distance_state)"
    unfolding huge_distance_state_facts by (simp_all add: js_truthy_def)
  have g: "graphData huge_distance_state = None"
    unfolding graphData_loop[OF huge_distance_state_facts(1) t] by (rule sampling_overflow[OF m])
  have v: "vehicleComparisonData huge_distance_state = None"
    unfolding vehicleComparisonData_loop[OF huge_distance_state_facts(1) t(1)] by (rule sampling_overflow[OF m])
  have e: "efficiencyComparisonData huge_distance_state = None"
    unfolding efficiencyComparisonData_loop[OF huge_distance_state_facts(1) t] by (rule sampling_overflow[OF m])
  show ?thesis
    using m g v e huge_distance_state_facts(1,2) by (simp add: stepOf_PInf js_ge_def)
qed

theorem charts_diverge_on_huge_distance_witness:
  "graphData huge_distance_state \<noteq> Some []
   \<and> vehicleComparisonData huge_distance_state \<noteq> Some []
   \<and> efficiencyComparisonData huge_distance_state \<noteq> Some []"
  using charts_diverge_on_huge_distance by simp

text \<open>
  The loops do not return on the smallest positive double either.  After a calculation
  on the initial inputs the distance is edited to \<open>2^-1074\<close> (\<^verbatim>\<open>5e-324\<close>): the maximal
  distance is \<open>2^-1073\<close>, the quotient by 20 underflows to zero, the step is 0 and the
  loop variable stays at 0.
\<close>

lemma tiny_distance_state_facts:
  "computedBreakdown tiny_distance_state \<noteq> None"
  "distance tiny_distance_state = Num (Fin (1 / 2 ^ 1074))"
  "efficiency tiny_distance_state = Num (Fin (13 / 2))"
  "currentFuelPrice tiny_distance_state = Num (Fin 185)"
  "pastFuelPrice tiny_distance_state = Num (Fin 300)"
  unfolding tiny_distance_state_def using submitted_initial by simp_all

lemma sampleLoop_zero_step:
  assumes "0 \<le> m"
  shows "sampleLoop row (Fin m) (Fin 0) (Fin 0) data = None"
proof (rule sampleLoop_diverges[where I = "\<lambda>d. d = Fin 0"])
  fix d assume "d = Fin 0"
  then show "js_le d (Fin m) \<and> js_add d (Fin 0) = Fin 0" using assms by (simp add: js_fin_0)
qed simp

lemma charts_diverge_on_tiny_distance:
  "maxDistanceOf tiny_distance_state = Fin (1 / 2 ^ 1073)"
  "stepOf (maxDistanceOf tiny_distance_state) = Fin 0"
  "graphData tiny_distance_state = None"
  "vehicleComparisonData tiny_distance_state = None"
  "efficiencyComparisonData tiny_distance_state = None"
proof -
  note f = tiny_distance_state_facts
  show m: "maxDistanceOf tiny_distance_state = Fin (1 / 2 ^ 1073)"
    unfolding maxDistanceOf_def f by (simp add: js_fin_eval)
  show st: "stepOf (maxDistanceOf tiny_distance_state) = Fin 0"
    unfolding m stepOf_def by (simp add: js_fin_eval)
  have t: "truthy (distance tiny_distance_state)" "truthy (efficiency tiny_distance_state)"
    "truthy (currentFuelPrice tiny_distance_state)" "truthy (pastFuelPrice tiny_distance_state)"
    unfolding f by (simp_all add: js_truthy_def)
  have l: "sampleLoop row (maxDistanceOf tiny_distance_state)
             (stepOf (maxDistanceOf tiny_distance_state)) (Fin 0) [] = None" for row :: "jsnum \<Rightarrow> 'b"
    unfolding st unfolding m by (rule sampleLoop_zero_step) simp
  show "graphData tiny_distance_state = None"
    unfolding graphData_loop[OF f(1) t] by (rule l)
  show "vehicleComparisonData tiny_distance_state = None"
    unfolding vehicleComparisonData_loop[OF f(1) t(1)] by (rule l)
  show "efficiencyComparisonData tiny_distance_state = None"
    unfolding efficiencyComparisonData_loop[OF f(1) t] by (rule l)
qed


end
